theory Spec2Isabelle
  imports Complex_Main
begin

section \<open>The libraries the importer is written against\<close>

text \<open>
  PyNifly computes with \<^verbatim>\<open>mathutils.Matrix\<close> values and with helpers and tables of
  its module \<^verbatim>\<open>blender_defs\<close>. Neither is part of the two source files modelled
  here, so their operations are a parameter of every function below: a record of
  operations over a matrix type \<open>'m\<close>, a vector type \<open>'v\<close> (locations and scales)
  and a rotation type \<open>'q\<close>. Floats are read as reals.

  \<^item> \<open>matmul\<close> is \<^verbatim>\<open>a @ b\<close>;
  \<^item> \<open>inverted\<close> is \<^verbatim>\<open>m.inverted()\<close> (and the in-place \<^verbatim>\<open>m.invert()\<close>), which
    raises \<^verbatim>\<open>ValueError\<close> on a singular matrix: \<open>None\<close> here;
  \<^item> \<open>Identity4\<close> is \<^verbatim>\<open>Matrix.Identity(4)\<close>;
  \<^item> \<open>mscale\<close> is \<^verbatim>\<open>m * sf\<close> with a float \<open>sf\<close>;
  \<^item> \<open>decompose\<close> is \<^verbatim>\<open>m.decompose()\<close>, \<open>to_scale\<close> is \<^verbatim>\<open>m.to_scale()\<close>;
  \<^item> \<open>vscale\<close> is \<^verbatim>\<open>v * sf\<close> on a vector;
  \<^item> \<open>MatNearEqual a b eps\<close> is \<^verbatim>\<open>MatNearEqual(a, b, epsilon=eps)\<close>, with
    \<open>None\<close> for a call that leaves \<open>epsilon\<close> at its default;
  \<^item> \<open>game_rotations g\<close> is the pair \<^verbatim>\<open>game_rotations[game_axes[g]]\<close>: the axis
    correction of game \<open>g\<close> and its inverse;
  \<^item> \<open>is_facebone\<close> is the predicate of that name on bone names;
  \<^item> \<open>create_bone_xf xf g sf\<close> is the matrix that \<^verbatim>\<open>create_bone\<close> gives the new
    edit bone when called with transform \<open>xf\<close>, game \<open>g\<close> and scale factor \<open>sf\<close>.

  A matrix object is a non-empty sequence, so it is true in a condition: the tests
  \<^verbatim>\<open>if offset_xf\<close> and \<^verbatim>\<open>if pose_xf\<close> of the source ask whether the variable
  is still \<^verbatim>\<open>None\<close>.
\<close>

record ('m, 'v, 'q) lib =
  matmul :: "'m \<Rightarrow> 'm \<Rightarrow> 'm"
  inverted :: "'m \<Rightarrow> 'm option"
  Identity4 :: "'m"
  mscale :: "'m \<Rightarrow> real \<Rightarrow> 'm"
  decompose :: "'m \<Rightarrow> 'v \<times> 'q \<times> 'v"
  to_scale :: "'m \<Rightarrow> 'v"
  vscale :: "'v \<Rightarrow> real \<Rightarrow> 'v"
  MatrixLocRotScale :: "'v \<Rightarrow> 'q \<Rightarrow> 'v \<Rightarrow> 'm"
  MatNearEqual :: "'m \<Rightarrow> 'm \<Rightarrow> real option \<Rightarrow> bool"
  game_rotations :: "string \<Rightarrow> 'm \<times> 'm"
  is_facebone :: "string \<Rightarrow> bool"
  create_bone_xf :: "'m \<Rightarrow> string \<Rightarrow> real \<Rightarrow> 'm"

text \<open>
  The spec's data model asks of the library that decomposition be stable: recomposing
  the rotation and scale that \<open>decompose\<close> produced, with any location, and decomposing
  again gives the same three components.
\<close>

definition decompose_stable :: "('m, 'v, 'q) lib \<Rightarrow> bool" where
  "decompose_stable L =
     (\<forall>M l. let r = fst (snd (decompose L M)); s = snd (snd (decompose L M))
            in decompose L (MatrixLocRotScale L l r s) = (l, r, s))"

subsection \<open>A concrete family of matrices\<close>

text \<open>
  The 4x4 matrices whose upper-left 3x3 block is \<open>sc\<close> times the identity, whose
  translation column is \<open>(0, 0, tz)\<close> and whose lower-right entry is \<open>ww\<close>
  (so \<^verbatim>\<open>Matrix.Translation((0, 0, t))\<close> is \<open>tz = t, sc = 1, ww = 1\<close>).
  The family is closed under every operation of the record, which are computed here
  as mathutils computes them in exact arithmetic. A location or scale vector is
  represented by its z component, the rotation is always the identity. For this
  family the default tolerance of \<open>MatNearEqual\<close> is taken to be 0.001, the axis
  correction of every game to be the identity, a face bone to be one whose name starts
  with \<open>skin_bone_\<close>, and \<^verbatim>\<open>create_bone\<close> to place the bone at the transform it is
  given, with the scale factor applied to the translation.
\<close>

record zmat =
  tz :: real
  sc :: real
  ww :: real

definition translate_z :: "real \<Rightarrow> zmat" where
  "translate_z t = \<lparr>tz = t, sc = 1, ww = 1\<rparr>"

definition zmat_mul :: "zmat \<Rightarrow> zmat \<Rightarrow> zmat" where
  "zmat_mul a b = \<lparr>tz = sc a * tz b + tz a * ww b, sc = sc a * sc b, ww = ww a * ww b\<rparr>"

definition zmat_inverted :: "zmat \<Rightarrow> zmat option" where
  "zmat_inverted a =
     (if sc a = 0 \<or> ww a = 0 then None
      else Some \<lparr>tz = - tz a / (sc a * ww a), sc = 1 / sc a, ww = 1 / ww a\<rparr>)"

definition zmat_near :: "zmat \<Rightarrow> zmat \<Rightarrow> real option \<Rightarrow> bool" where
  "zmat_near a b eps =
     (let e = (case eps of None \<Rightarrow> 1 / 1000 | Some e \<Rightarrow> e)
      in \<bar>tz a - tz b\<bar> \<le> e \<and> \<bar>sc a - sc b\<bar> \<le> e \<and> \<bar>ww a - ww b\<bar> \<le> e)"

definition zlib :: "(zmat, real, unit) lib" where
  "zlib = \<lparr>matmul = zmat_mul, inverted = zmat_inverted, Identity4 = translate_z 0,
           mscale = (\<lambda>m sf. \<lparr>tz = tz m * sf, sc = sc m * sf, ww = ww m * sf\<rparr>),
           decompose = (\<lambda>m. (tz m, (), sc m)), to_scale = sc,
           vscale = (\<lambda>v sf. v * sf),
           MatrixLocRotScale = (\<lambda>l r s. \<lparr>tz = l, sc = s, ww = 1\<rparr>),
           MatNearEqual = zmat_near,
           game_rotations = (\<lambda>g. (translate_z 0, translate_z 0)),
           is_facebone = (\<lambda>n. take 10 n = ''skin_bone_''),
           create_bone_xf = (\<lambda>xf g sf. \<lparr>tz = tz xf * sf, sc = sc xf, ww = 1\<rparr>)\<rparr>"

section \<open>Helper functions of the importer\<close>

text \<open>
  \<^verbatim>\<open>apply_scale_xf(xf, sf)\<close>: decompose \<^verbatim>\<open>xf * sf\<close>, keep its location and rotation,
  and recompose them with the scale of the unscaled \<open>xf\<close>.
\<close>

definition apply_scale_xf :: "('m, 'v, 'q) lib \<Rightarrow> 'm \<Rightarrow> real \<Rightarrow> 'm" where
  "apply_scale_xf L xf sf =
     (case decompose L (mscale L xf sf) of
        (loc, rot, scale) \<Rightarrow> MatrixLocRotScale L loc rot (to_scale L xf))"

text \<open>
  \<^verbatim>\<open>apply_scale_transl(xf, sf)\<close>: decompose \<open>xf\<close> and recompose it with the location
  multiplied by \<open>sf\<close>.
\<close>

definition apply_scale_transl :: "('m, 'v, 'q) lib \<Rightarrow> 'm \<Rightarrow> real \<Rightarrow> 'm" where
  "apply_scale_transl L xf sf =
     (case decompose L xf of
        (loc, rot, scale) \<Rightarrow> MatrixLocRotScale L (vscale L loc sf) rot scale)"

text \<open>
  \<^verbatim>\<open>get_pose_blender_xf(node_xf, game, scale_factor)\<close>: the scale applied to the
  translation, then the game's axis correction.
\<close>

definition get_pose_blender_xf :: "('m, 'v, 'q) lib \<Rightarrow> 'm \<Rightarrow> string \<Rightarrow> real \<Rightarrow> 'm" where
  "get_pose_blender_xf L node_xf gm sf =
     matmul L (apply_scale_transl L node_xf sf) (fst (game_rotations L gm))"

section \<open>The data the importer works on\<close>

text \<open>The exceptions the modelled code can raise.\<close>

datatype py_error = KeyError | ValueError | TypeError | IndexError | ZeroDivisionError

text \<open>
  A node of a nif file. Of a node's parent the importer reads the name and, inside a
  \<^verbatim>\<open>try\<close>, the attribute \<^verbatim>\<open>nif_name\<close> (\<open>None\<close> when reading it raises, and the
  \<^verbatim>\<open>except\<close> branch takes the name instead).
\<close>

record parent_ref =
  pr_name :: string
  pr_nif_name :: "string option"

record 'm ninode =
  node_name :: string
  blockname :: string
  node_parent :: "parent_ref option"
  xform_to_global :: "'m"
  collision_object :: bool

text \<open>
  A nif file: the dictionary \<^verbatim>\<open>nodes\<close> from names to nodes (an association list),
  the name of the root, the game, \<^verbatim>\<open>get_node_xform_to_global\<close>, and the two renaming
  functions \<^verbatim>\<open>nif.nif_name\<close> and \<^verbatim>\<open>nif.dict.blender_name\<close>.
\<close>

record 'm niffile =
  nodes :: "(string \<times> 'm ninode) list"
  rootName :: string
  nif_game :: string
  get_node_xform_to_global :: "string \<Rightarrow> 'm"
  dict_nif_name :: "string \<Rightarrow> string"
  dict_blender_name :: "string \<Rightarrow> string"

text \<open>
  A shape, as far as the placement calculator and the matcher read it.
  \<open>is_NiShape\<close> is \<^verbatim>\<open>type(the_shape) == NiShape\<close>; \<open>used_bones\<close> is
  \<^verbatim>\<open>get_used_bones()\<close>; \<open>bind_position\<close> and \<open>pose_transform\<close> are the functions
  of those names applied to the shape; \<open>shape_game\<close> is \<^verbatim>\<open>shape.file.game\<close>.
\<close>

record 'm nishape =
  shape_name :: string
  is_NiShape :: bool
  has_skin_instance :: bool
  shape_transform :: "'m"
  has_global_to_skin :: bool
  global_to_skin :: "'m"
  bone_names :: "string list"
  used_bones :: "string list"
  bind_position :: "string \<Rightarrow> 'm"
  pose_transform :: "string \<Rightarrow> 'm"
  shape_game :: string

text \<open>
  An armature: its bones in the order they were created, each with its name, the name
  of its parent, its edit (bind) matrix \<^verbatim>\<open>matrix_local\<close> and the matrix of its pose
  bone; and the custom property \<^verbatim>\<open>PYN_TRANSFORM\<close> when it is set.
\<close>

record 'm bone =
  bone_name :: string
  bone_parent :: "string option"
  matrix_local :: "'m"
  pose_matrix :: "'m"

record 'm armature =
  arma_name :: string
  arma_bones :: "'m bone list"
  PYN_TRANSFORM :: "'m option"

record 'm bobject =
  obj_name :: string
  matrix_world :: "'m"

text \<open>The fields of \<^verbatim>\<open>NifImporter\<close> that the modelled methods read.\<close>

record 'm importer =
  nif :: "'m niffile"
  reference_skel :: "'m niffile option"
  create_bones :: bool
  rename_bones :: bool
  rename_bones_nift :: bool
  self_scale :: real
  nodes_loaded :: "(string \<times> 'm nishape) list"

text \<open>
  Bones are looked up by name, as in \<^verbatim>\<open>arma.data.bones[name]\<close>; an assignment to an
  attribute of the bone found changes that one bone.
\<close>

definition find_bone :: "'m bone list \<Rightarrow> string \<Rightarrow> 'm bone option" where
  "find_bone bs n = List.find (\<lambda>b. bone_name b = n) bs"

definition has_bone :: "'m bone list \<Rightarrow> string \<Rightarrow> bool" where
  "has_bone bs n = (n \<in> set (map bone_name bs))"

fun update_bone :: "string \<Rightarrow> ('m bone \<Rightarrow> 'm bone) \<Rightarrow> 'm bone list \<Rightarrow> 'm bone list" where
  "update_bone n f [] = []"
| "update_bone n f (b # bs) = (if bone_name b = n then f b # bs else b # update_bone n f bs)"

definition nif_name :: "'m importer \<Rightarrow> string \<Rightarrow> string" where
  "nif_name imp blender_nm =
     (if rename_bones imp \<or> rename_bones_nift imp then dict_nif_name (nif imp) blender_nm
      else blender_nm)"

definition blender_name :: "'m importer \<Rightarrow> string \<Rightarrow> string" where
  "blender_name imp nif_nm =
     (if rename_bones imp \<or> rename_bones_nift imp then dict_blender_name (nif imp) nif_nm
      else nif_nm)"

section \<open>Bind and pose transforms of a bone\<close>

definition get_bone_global_xf ::
  "('m, 'v, 'q) lib \<Rightarrow> 'm armature \<Rightarrow> string \<Rightarrow> string \<Rightarrow> bool \<Rightarrow> py_error + 'm" where
  "get_bone_global_xf L arma bn gm use_pose =
     (case find_bone (arma_bones arma) bn of
        None \<Rightarrow> Inl KeyError
      | Some b \<Rightarrow>
          Inr (matmul L (if use_pose then pose_matrix b else matrix_local b)
                 (snd (game_rotations L gm))))"

definition get_bone_xform ::
  "('m, 'v, 'q) lib \<Rightarrow> 'm armature \<Rightarrow> string \<Rightarrow> string \<Rightarrow> bool \<Rightarrow> bool \<Rightarrow> py_error + 'm" where
  "get_bone_xform L arma bn gm preserve_hierarchy use_pose =
     (case get_bone_global_xf L arma bn gm use_pose of
        Inl e \<Rightarrow> Inl e
      | Inr bonexf \<Rightarrow>
          if preserve_hierarchy then
            (case find_bone (arma_bones arma) bn of
               None \<Rightarrow> Inl KeyError
             | Some b \<Rightarrow>
                 (case bone_parent b of
                    None \<Rightarrow> Inr bonexf
                  | Some pn \<Rightarrow>
                      (case get_bone_global_xf L arma pn gm use_pose of
                         Inl e \<Rightarrow> Inl e
                       | Inr parent_xf \<Rightarrow>
                           (case inverted L parent_xf of
                              None \<Rightarrow> Inl ValueError
                            | Some pinv \<Rightarrow> Inr (matmul L pinv bonexf)))))
          else Inr bonexf)"

section \<open>Shape placement: \<open>calc_obj_transform\<close>\<close>

text \<open>
  The method keeps two variables, the transform \<open>xf\<close> and the flag
  \<open>offset_consistent\<close>, through three steps. The first step: a global-to-skin
  transform, when the shape has one, is inverted and the flag is set.
\<close>

definition global_to_skin_step ::
  "('m, 'v, 'q) lib \<Rightarrow> 'm nishape \<Rightarrow> py_error + ('m \<times> bool)" where
  "global_to_skin_step L the_shape =
     (if has_global_to_skin the_shape then
        (case inverted L (global_to_skin the_shape) of
           None \<Rightarrow> Inl ValueError
         | Some xf \<Rightarrow> Inr (xf, True))
      else Inr (Identity4 L, False))"

text \<open>
  The loop over the used bones that are in the reference skeleton. Its state is
  \<open>offset_xf\<close> (\<open>None\<close> until the first such bone) and \<open>offset_consistent\<close>;
  a bone whose offset differs from the first one clears the flag and leaves the loop.
\<close>

fun bind_offset_loop ::
  "('m, 'v, 'q) lib \<Rightarrow> 'm niffile \<Rightarrow> 'm nishape \<Rightarrow> 'm \<Rightarrow> string list \<Rightarrow>
   'm option \<times> bool \<Rightarrow> py_error + ('m option \<times> bool)" where
  "bind_offset_loop L skel the_shape xf [] st = Inr st"
| "bind_offset_loop L skel the_shape xf (bn # bns) (offset_xf, offset_consistent) =
     (case map_of (nodes skel) bn of
        None \<Rightarrow> bind_offset_loop L skel the_shape xf bns (offset_xf, offset_consistent)
      | Some skel_bone \<Rightarrow>
          (let skel_bone_xf = xform_to_global skel_bone;
               bindpos = bind_position the_shape bn;
               bindinshape = matmul L xf bindpos
           in case inverted L bindinshape of
                None \<Rightarrow> Inl ValueError
              | Some binv \<Rightarrow>
                  (let this_offset = matmul L skel_bone_xf binv
                   in case offset_xf of
                        None \<Rightarrow> bind_offset_loop L skel the_shape xf bns (Some this_offset, True)
                      | Some off \<Rightarrow>
                          if \<not> MatNearEqual L this_offset off None
                          then Inr (offset_xf, False)
                          else bind_offset_loop L skel the_shape xf bns
                                 (offset_xf, offset_consistent))))"

text \<open>
  The second step runs only when bones are created from a reference skeleton; a
  consistent offset is composed into \<open>xf\<close>.
\<close>

definition bind_offset_step ::
  "('m, 'v, 'q) lib \<Rightarrow> 'm importer \<Rightarrow> 'm nishape \<Rightarrow> 'm \<times> bool \<Rightarrow> py_error + ('m \<times> bool)" where
  "bind_offset_step L imp the_shape st =
     (case st of (xf, offset_consistent) \<Rightarrow>
        (case (if create_bones imp then reference_skel imp else None) of
           None \<Rightarrow> Inr (xf, offset_consistent)
         | Some skel \<Rightarrow>
             (case bind_offset_loop L skel the_shape xf (used_bones the_shape)
                     (None, offset_consistent) of
                Inl e \<Rightarrow> Inl e
              | Inr (offset_xf, consistent) \<Rightarrow>
                  (case offset_xf of
                     Some off \<Rightarrow>
                       if consistent then Inr (matmul L xf off, consistent)
                       else Inr (xf, consistent)
                   | None \<Rightarrow> Inr (xf, consistent)))))"

text \<open>
  The loop over the pose transforms of the used bones, with tolerance 0.5. Its state
  is \<open>pose_xf\<close> (\<open>None\<close> until the first bone) and the flag \<open>same\<close>.
\<close>

fun pose_loop ::
  "('m, 'v, 'q) lib \<Rightarrow> 'm nishape \<Rightarrow> string list \<Rightarrow> 'm option \<times> bool \<Rightarrow> 'm option \<times> bool" where
  "pose_loop L the_shape [] st = st"
| "pose_loop L the_shape (b # bs) (pose_xf, same) =
     (let bone_xf = pose_transform the_shape b
      in case pose_xf of
           Some p \<Rightarrow>
             if \<not> MatNearEqual L p bone_xf (Some (1 / 2)) then (pose_xf, False)
             else pose_loop L the_shape bs (pose_xf, same)
         | None \<Rightarrow> pose_loop L the_shape bs (Some bone_xf, same))"

text \<open>
  The third step runs when the offset is not consistent. When the pose transforms
  agree, \<^verbatim>\<open>xf @ pose_xf\<close> is computed, which raises \<^verbatim>\<open>TypeError\<close> while
  \<open>pose_xf\<close> is \<^verbatim>\<open>None\<close>, and inverted in place.
\<close>

definition pose_offset_step ::
  "('m, 'v, 'q) lib \<Rightarrow> 'm nishape \<Rightarrow> 'm \<times> bool \<Rightarrow> py_error + ('m \<times> bool)" where
  "pose_offset_step L the_shape st =
     (case st of (xf, offset_consistent) \<Rightarrow>
        if \<not> offset_consistent then
          (case pose_loop L the_shape (used_bones the_shape) (None, True) of
             (pose_xf, same) \<Rightarrow>
               if same then
                 (case pose_xf of
                    None \<Rightarrow> Inl TypeError
                  | Some p \<Rightarrow>
                      (case inverted L (matmul L xf p) of
                         None \<Rightarrow> Inl ValueError
                       | Some xf' \<Rightarrow> Inr (xf', offset_consistent)))
               else Inr (xf, offset_consistent))
        else Inr (xf, offset_consistent))"

text \<open>
  The values of \<open>xf\<close> and \<open>offset_consistent\<close> of a skinned shape when the method
  reaches its last line.
\<close>

definition skinned_transform ::
  "('m, 'v, 'q) lib \<Rightarrow> 'm importer \<Rightarrow> 'm nishape \<Rightarrow> py_error + ('m \<times> bool)" where
  "skinned_transform L imp the_shape =
     (case global_to_skin_step L the_shape of
        Inl e \<Rightarrow> Inl e
      | Inr st1 \<Rightarrow>
          (case bind_offset_step L imp the_shape st1 of
             Inl e \<Rightarrow> Inl e
           | Inr st2 \<Rightarrow> pose_offset_step L the_shape st2))"

definition calc_obj_transform ::
  "('m, 'v, 'q) lib \<Rightarrow> 'm importer \<Rightarrow> 'm nishape \<Rightarrow> real \<Rightarrow> py_error + 'm" where
  "calc_obj_transform L imp the_shape scale_factor =
     (if \<not> is_NiShape the_shape \<or> \<not> has_skin_instance the_shape then
        Inr (apply_scale_xf L (shape_transform the_shape) scale_factor)
      else
        (case skinned_transform L imp the_shape of
           Inl e \<Rightarrow> Inl e
         | Inr (xf, offset_consistent) \<Rightarrow> Inr (apply_scale_xf L xf scale_factor)))"

text \<open>
  The used bones that the second step of \<open>calc_obj_transform\<close> finds in the reference
  skeleton; none when bones are not created from a reference skeleton.
\<close>

definition reference_bones :: "'m importer \<Rightarrow> 'm nishape \<Rightarrow> string list" where
  "reference_bones imp the_shape =
     (case (if create_bones imp then reference_skel imp else None) of
        None \<Rightarrow> []
      | Some skel \<Rightarrow> filter (\<lambda>bn. map_of (nodes skel) bn \<noteq> None) (used_bones the_shape))"

section \<open>Rig compatibility: \<open>find_compatible_arma\<close>\<close>

text \<open>
  The inner loop over the bones of the shape. Its state is \<open>is_ok\<close>, \<open>offset_xf\<close>
  and \<open>offset_consistent\<close>. A bone that is not in the armature is skipped; a second
  mismatch whose offset differs from the first clears \<open>offset_consistent\<close> and leaves
  the loop.
\<close>

fun check_bones ::
  "('m, 'v, 'q) lib \<Rightarrow> 'm importer \<Rightarrow> 'm bobject \<Rightarrow> 'm nishape \<Rightarrow> 'm armature \<Rightarrow> string list \<Rightarrow>
   bool \<times> 'm option \<times> bool \<Rightarrow> py_error + (bool \<times> 'm option \<times> bool)" where
  "check_bones L imp obj shape arma [] st = Inr st"
| "check_bones L imp obj shape arma (b # bs) (is_ok, offset_xf, offset_consistent) =
     (let blend_name = blender_name imp b
      in if has_bone (arma_bones arma) blend_name then
           (let shape_bone_xf = matmul L (matrix_world obj)
                                  (apply_scale_xf L (bind_position shape b) (self_scale imp))
            in case get_bone_xform L arma blend_name (shape_game shape) False False of
                 Inl e \<Rightarrow> Inl e
               | Inr arma_xf \<Rightarrow>
                   if \<not> MatNearEqual L shape_bone_xf arma_xf None then
                     (let this_offset = matmul L shape_bone_xf arma_xf
                      in case offset_xf of
                           Some off \<Rightarrow>
                             if \<not> MatNearEqual L this_offset off None
                             then Inr (False, offset_xf, False)
                             else check_bones L imp obj shape arma bs
                                    (False, offset_xf, offset_consistent)
                         | None \<Rightarrow>
                             check_bones L imp obj shape arma bs
                               (False, Some this_offset, offset_consistent))
                   else check_bones L imp obj shape arma bs
                          (is_ok, offset_xf, offset_consistent))
         else check_bones L imp obj shape arma bs (is_ok, offset_xf, offset_consistent))"

text \<open>
  The body of the loop over the armatures: \<open>Some r\<close> when the body returns \<open>r\<close>,
  \<open>None\<close> when it falls through to the next armature. The second condition is
  written \<^verbatim>\<open>if False and offset_consistent\<close> in the source.
\<close>

definition try_arma ::
  "('m, 'v, 'q) lib \<Rightarrow> 'm importer \<Rightarrow> 'm bobject \<Rightarrow> 'm nishape \<Rightarrow> 'm armature \<Rightarrow>
   py_error + ('m armature option \<times> 'm option) option" where
  "try_arma L imp obj shape arma =
     (case check_bones L imp obj shape arma (bone_names shape) (True, None, True) of
        Inl e \<Rightarrow> Inl e
      | Inr (is_ok, offset_xf, offset_consistent) \<Rightarrow>
          if is_ok then Inr (Some (Some arma, offset_xf))
          else if False \<and> offset_consistent then Inr (Some (Some arma, offset_xf))
          else Inr (Some (None, None)))"

fun arma_loop ::
  "('m, 'v, 'q) lib \<Rightarrow> 'm importer \<Rightarrow> 'm bobject \<Rightarrow> 'm nishape \<Rightarrow> 'm armature list \<Rightarrow>
   py_error + ('m armature option \<times> 'm option)" where
  "arma_loop L imp obj shape [] = Inr (None, None)"
| "arma_loop L imp obj shape (arma # armatures) =
     (case try_arma L imp obj shape arma of
        Inl e \<Rightarrow> Inl e
      | Inr (Some r) \<Rightarrow> Inr r
      | Inr None \<Rightarrow> arma_loop L imp obj shape armatures)"

definition find_compatible_arma ::
  "('m, 'v, 'q) lib \<Rightarrow> 'm importer \<Rightarrow> 'm bobject \<Rightarrow> 'm armature list \<Rightarrow>
   py_error + ('m armature option \<times> 'm option)" where
  "find_compatible_arma L imp obj armatures =
     (case map_of (nodes_loaded imp) (obj_name obj) of
        None \<Rightarrow> Inl KeyError
      | Some shape \<Rightarrow> arma_loop L imp obj shape armatures)"

text \<open>
  A bone of the shape mismatches an armature when the armature has it and its bind
  position in the shape, placed by the object's world matrix, is not near the bone's
  edit position in the armature: the test the inner loop makes.
\<close>

definition bone_mismatch ::
  "('m, 'v, 'q) lib \<Rightarrow> 'm importer \<Rightarrow> 'm bobject \<Rightarrow> 'm nishape \<Rightarrow> 'm armature \<Rightarrow> string \<Rightarrow> bool" where
  "bone_mismatch L imp obj shape arma b =
     (case find_bone (arma_bones arma) (blender_name imp b) of
        None \<Rightarrow> False
      | Some arma_bone \<Rightarrow>
          \<not> MatNearEqual L
              (matmul L (matrix_world obj)
                 (apply_scale_xf L (bind_position shape b) (self_scale imp)))
              (matmul L (matrix_local arma_bone) (snd (game_rotations L (shape_game shape))))
              None)"

section \<open>Building the rig\<close>

text \<open>
  \<^verbatim>\<open>create_bone\<close> is not in the two source files. Modelled from the spec: the host
  creates a bone with the given name and bind transform; the new bone has no parent
  and is in its rest pose.
\<close>

definition create_bone ::
  "('m, 'v, 'q) lib \<Rightarrow> 'm armature \<Rightarrow> string \<Rightarrow> 'm \<Rightarrow> string \<Rightarrow> real \<Rightarrow> 'm armature" where
  "create_bone L arma bn xform gm sf =
     arma\<lparr>arma_bones := arma_bones arma @
            [\<lparr>bone_name = bn, bone_parent = None,
              matrix_local = create_bone_xf L xform gm sf,
              pose_matrix = create_bone_xf L xform gm sf\<rparr>]\<rparr>"

text \<open>\<^verbatim>\<open>calc_skin_transform(arma)\<close>, called without a shape object.\<close>

definition calc_skin_transform :: "('m, 'v, 'q) lib \<Rightarrow> 'm armature \<Rightarrow> 'm" where
  "calc_skin_transform L arma =
     (case PYN_TRANSFORM arma of Some skin_xf \<Rightarrow> skin_xf | None \<Rightarrow> Identity4 L)"

text \<open>
  \<^verbatim>\<open>add_bone_to_arma(arma, bone_name, nifname)\<close> returns the armature as it leaves it
  and the name of the new bone, or \<open>None\<close> when the bone is already there.
\<close>

definition add_bone_to_arma ::
  "('m, 'v, 'q) lib \<Rightarrow> 'm importer \<Rightarrow> 'm armature \<Rightarrow> string \<Rightarrow> string \<Rightarrow>
   py_error + ('m armature \<times> string option)" where
  "add_bone_to_arma L imp arma bn nifname =
     (if has_bone (arma_bones arma) bn then Inr (arma, None)
      else
        (case (if create_bones imp then
                 (case reference_skel imp of
                    None \<Rightarrow> None
                  | Some skel \<Rightarrow> map_of (nodes skel) nifname)
               else None) of
           Some skel_node \<Rightarrow>
             Inr (create_bone L arma bn (xform_to_global skel_node)
                    (nif_game (nif imp)) (self_scale imp), Some bn)
         | None \<Rightarrow>
             (let bone_xform = get_node_xform_to_global (nif imp) nifname;
                  arma_xf = calc_skin_transform L arma
              in if self_scale imp = 0 then Inl ZeroDivisionError
                 else
                   Inr (create_bone L arma bn
                          (matmul L (apply_scale_transl L arma_xf (1 / self_scale imp)) bone_xform)
                          (nif_game (nif imp)) (self_scale imp), Some bn))))"

text \<open>\<^verbatim>\<open>set_bone_poses(arma, nif, bonelist)\<close> and \<^verbatim>\<open>set_all_bone_poses\<close>.\<close>

fun set_bone_poses ::
  "('m, 'v, 'q) lib \<Rightarrow> 'm importer \<Rightarrow> 'm armature \<Rightarrow> 'm niffile \<Rightarrow> (string \<times> string) list \<Rightarrow>
   'm armature" where
  "set_bone_poses L imp arma nf [] = arma"
| "set_bone_poses L imp arma nf ((bn, blname) # bonelist) =
     set_bone_poses L imp
       (case map_of (nodes nf) bn of
          None \<Rightarrow> arma
        | Some nif_bone \<Rightarrow>
            if has_bone (arma_bones arma) blname
               \<and> blockname nif_bone = ''NiNode'' \<and> node_name nif_bone \<noteq> rootName nf
            then
              arma\<lparr>arma_bones :=
                update_bone blname
                  (\<lambda>pose_bone. pose_bone\<lparr>pose_matrix :=
                     get_pose_blender_xf L (xform_to_global nif_bone)
                       (nif_game (nif imp)) (self_scale imp)\<rparr>)
                  (arma_bones arma)\<rparr>
            else arma)
       nf bonelist"

definition set_all_bone_poses ::
  "('m, 'v, 'q) lib \<Rightarrow> 'm importer \<Rightarrow> 'm armature \<Rightarrow> 'm niffile \<Rightarrow> 'm armature" where
  "set_all_bone_poses L imp arma nf =
     set_bone_poses L imp arma nf
       (map (\<lambda>b. (nif_name imp (bone_name b), bone_name b)) (arma_bones arma))"

subsection \<open>\<open>connect_armature\<close>\<close>

text \<open>
  Looking for the parent of a bone: first in the nif, under the bone's nif name,
  where a parent other than the root gives the pair of the parent's Blender name and
  nif name; then, when that gave nothing, bones are being created and the bone is not
  a face bone, in the reference skeleton.
\<close>

definition nif_parent :: "'m importer \<Rightarrow> string \<Rightarrow> (string \<times> string) option" where
  "nif_parent imp nifname =
     (case map_of (nodes (nif imp)) nifname of
        None \<Rightarrow> None
      | Some thisnode \<Rightarrow>
          (case node_parent thisnode of
             None \<Rightarrow> None
           | Some niparent \<Rightarrow>
               if pr_name niparent \<noteq> rootName (nif imp) then
                 Some (blender_name imp (pr_name niparent),
                       (case pr_nif_name niparent of Some n \<Rightarrow> n | None \<Rightarrow> pr_name niparent))
               else None))"

definition skel_parent ::
  "('m, 'v, 'q) lib \<Rightarrow> 'm importer \<Rightarrow> string \<Rightarrow> string \<Rightarrow> (string \<times> string) option" where
  "skel_parent L imp bonename nifname =
     (if create_bones imp \<and> \<not> is_facebone L bonename then
        (case reference_skel imp of
           None \<Rightarrow> None
         | Some skel \<Rightarrow>
             (case map_of (nodes skel) nifname of
                None \<Rightarrow> None
              | Some skel_node \<Rightarrow>
                  if nifname \<noteq> rootName skel then
                    (case node_parent skel_node of
                       None \<Rightarrow> None
                     | Some p \<Rightarrow>
                         if pr_name p \<noteq> rootName skel
                         then Some (blender_name imp (pr_name p), pr_name p)
                         else None)
                  else None))
      else None)"

definition find_parent ::
  "('m, 'v, 'q) lib \<Rightarrow> 'm importer \<Rightarrow> string \<Rightarrow> (string \<times> string) option" where
  "find_parent L imp bonename =
     (let nifname = nif_name imp bonename
      in case nif_parent imp nifname of
           Some r \<Rightarrow> Some r
         | None \<Rightarrow> skel_parent L imp bonename nifname)"

text \<open>The nif node of a bone is remembered when it has a collision object.\<close>

definition note_collision :: "'m importer \<Rightarrow> string \<Rightarrow> string list \<Rightarrow> string list" where
  "note_collision imp bonename cols =
     (case map_of (nodes (nif imp)) (nif_name imp bonename) of
        None \<Rightarrow> cols
      | Some thisnode \<Rightarrow>
          if collision_object thisnode then List.insert (node_name thisnode) cols else cols)"

text \<open>
  The state of the loop: the armature, the work list \<open>bones_to_parent\<close>, which grows
  while it is walked, the list \<open>new_bones\<close>, the collisions and the index \<open>i\<close>.
\<close>

record 'm conn_state =
  cs_arma :: "'m armature"
  bones_to_parent :: "string list"
  new_bones :: "(string \<times> string) list"
  collisions :: "string list"
  cs_i :: nat

text \<open>
  One pass through the body of the \<^verbatim>\<open>while\<close> loop, for the bone at index \<open>i\<close>.
  A parent name counts when it is neither \<^verbatim>\<open>None\<close> nor the empty string.
  An assignment to \<^verbatim>\<open>parent\<close> is taken as the statement reads: it sets the parent
  of the bone found under the name.
\<close>

definition connect_step ::
  "('m, 'v, 'q) lib \<Rightarrow> 'm importer \<Rightarrow> 'm conn_state \<Rightarrow> py_error + 'm conn_state" where
  "connect_step L imp s =
     (let bonename = bones_to_parent s ! cs_i s;
          arma = cs_arma s
      in case find_bone (arma_bones arma) bonename of
           None \<Rightarrow> Inl KeyError
         | Some arma_bone \<Rightarrow>
             if bone_parent arma_bone = None then
               (let cols = note_collision imp bonename (collisions s)
                in case find_parent L imp bonename of
                     None \<Rightarrow> Inr (s\<lparr>collisions := cols, cs_i := cs_i s + 1\<rparr>)
                   | Some (parentname, parentnifname) \<Rightarrow>
                       if parentname \<noteq> [] then
                         if \<not> has_bone (arma_bones arma) parentname then
                           (case add_bone_to_arma L imp arma parentname parentnifname of
                              Inl e \<Rightarrow> Inl e
                            | Inr (arma', new_parent) \<Rightarrow>
                                Inr (s\<lparr>cs_arma := arma'\<lparr>arma_bones :=
                                         update_bone bonename (\<lambda>b. b\<lparr>bone_parent := new_parent\<rparr>)
                                           (arma_bones arma')\<rparr>,
                                       bones_to_parent := bones_to_parent s @ [parentname],
                                       new_bones := new_bones s @ [(parentnifname, parentname)],
                                       collisions := cols,
                                       cs_i := cs_i s + 1\<rparr>))
                         else
                           Inr (s\<lparr>cs_arma := arma\<lparr>arma_bones :=
                                    update_bone bonename (\<lambda>b. b\<lparr>bone_parent := Some parentname\<rparr>)
                                      (arma_bones arma)\<rparr>,
                                  collisions := cols,
                                  cs_i := cs_i s + 1\<rparr>)
                       else Inr (s\<lparr>collisions := cols, cs_i := cs_i s + 1\<rparr>))
             else Inr (s\<lparr>cs_i := cs_i s + 1\<rparr>))"

text \<open>
  Every name the loop can add to the armature is the Blender name of the parent of
  some node of the nif or of the reference skeleton.
\<close>

definition parent_names :: "(string \<times> 'm ninode) list \<Rightarrow> string list" where
  "parent_names ns =
     concat (map (\<lambda>(k, n). case node_parent n of None \<Rightarrow> [] | Some p \<Rightarrow> [pr_name p]) ns)"

definition candidates :: "'m importer \<Rightarrow> string list" where
  "candidates imp =
     map (blender_name imp)
       (parent_names (nodes (nif imp))
        @ (case reference_skel imp of None \<Rightarrow> [] | Some skel \<Rightarrow> parent_names (nodes skel)))"

definition work_left :: "'m importer \<Rightarrow> 'm conn_state \<Rightarrow> nat" where
  "work_left imp s =
     card (set (candidates imp) - set (map bone_name (arma_bones (cs_arma s))))
     + (length (bones_to_parent s) - cs_i s)"

text \<open>
  Each pass through the loop body leaves less work: either the index advances on an
  unchanged work list, or the armature gains a bone whose name is one of the finitely
  many candidates and was not in the armature before.
\<close>

lemma parent_names_mem:
  "map_of ns k = Some n \<Longrightarrow> node_parent n = Some p \<Longrightarrow> pr_name p \<in> set (parent_names ns)"
  by (force simp: parent_names_def dest: map_of_SomeD)

lemma nif_parent_candidates:
  "nif_parent imp nn = Some (pn, pnn) \<Longrightarrow> pn \<in> set (candidates imp)"
  by (auto simp: nif_parent_def candidates_def split: option.splits if_splits
      intro!: imageI dest: parent_names_mem)

lemma skel_parent_candidates:
  "skel_parent L imp bn nn = Some (pn, pnn) \<Longrightarrow> pn \<in> set (candidates imp)"
  by (auto simp: skel_parent_def candidates_def split: option.splits if_splits
      intro!: imageI dest: parent_names_mem)

lemma find_parent_candidates:
  "find_parent L imp bn = Some (pn, pnn) \<Longrightarrow> pn \<in> set (candidates imp)"
  by (auto simp: find_parent_def Let_def split: option.splits
      dest: nif_parent_candidates skel_parent_candidates)

lemma names_update_bone:
  "(\<And>b. bone_name (f b) = bone_name b) \<Longrightarrow>
   map bone_name (update_bone n f bs) = map bone_name bs"
  by (induction bs) auto

lemma add_bone_new:
  "add_bone_to_arma L imp arma bn nn = Inr (arma', r) \<Longrightarrow> \<not> has_bone (arma_bones arma) bn \<Longrightarrow>
   map bone_name (arma_bones arma') = map bone_name (arma_bones arma) @ [bn] \<and> r = Some bn"
  by (auto simp: add_bone_to_arma_def create_bone_def Let_def split: option.splits if_splits)

lemma connect_step_shape:
  assumes "connect_step L imp s = Inr s'"
  shows "cs_i s' = cs_i s + 1 \<and>
         ((map bone_name (arma_bones (cs_arma s')) = map bone_name (arma_bones (cs_arma s))
            \<and> bones_to_parent s' = bones_to_parent s)
          \<or> (\<exists>pn. pn \<in> set (candidates imp)
                \<and> pn \<notin> set (map bone_name (arma_bones (cs_arma s)))
                \<and> map bone_name (arma_bones (cs_arma s'))
                    = map bone_name (arma_bones (cs_arma s)) @ [pn]
                \<and> bones_to_parent s' = bones_to_parent s @ [pn]))"
  using assms
  by (auto simp: connect_step_def Let_def names_update_bone has_bone_def
      split: option.splits if_splits sum.splits prod.splits
      dest!: add_bone_new find_parent_candidates)

lemma connect_step_work_left:
  assumes "connect_step L imp s = Inr s'" and "cs_i s < length (bones_to_parent s)"
  shows "work_left imp s' < work_left imp s"
proof -
  let ?C = "set (candidates imp)"
  let ?N = "set (map bone_name (arma_bones (cs_arma s)))"
  from connect_step_shape [OF assms(1)] have i: "cs_i s' = cs_i s + 1" by simp
  from connect_step_shape [OF assms(1)] consider
    (same) "map bone_name (arma_bones (cs_arma s')) = map bone_name (arma_bones (cs_arma s))"
      "bones_to_parent s' = bones_to_parent s"
  | (grown) pn where "pn \<in> ?C" "pn \<notin> ?N"
      "map bone_name (arma_bones (cs_arma s')) = map bone_name (arma_bones (cs_arma s)) @ [pn]"
      "bones_to_parent s' = bones_to_parent s @ [pn]"
    by blast
  then show ?thesis
  proof cases
    case same
    with i assms(2) show ?thesis by (simp add: work_left_def)
  next
    case grown
    have "?C - (insert pn ?N) = (?C - ?N) - {pn}" by blast
    moreover have "pn \<in> ?C - ?N" using grown by simp
    moreover have "finite (?C - ?N)" by simp
    ultimately have "card (?C - insert pn ?N) < card (?C - ?N)"
      by (metis card_Diff1_less)
    with grown i assms(2) show ?thesis by (simp add: work_left_def)
  qed
qed

text \<open>The \<^verbatim>\<open>while i < len(bones_to_parent)\<close> loop.\<close>

function connect_loop ::
  "('m, 'v, 'q) lib \<Rightarrow> 'm importer \<Rightarrow> 'm conn_state \<Rightarrow> py_error + 'm conn_state" where
  "connect_loop L imp s =
     (if cs_i s < length (bones_to_parent s) then
        (case connect_step L imp s of
           Inl e \<Rightarrow> Inl e
         | Inr s' \<Rightarrow> connect_loop L imp s')
      else Inr s)"
  by pat_completeness auto
termination
  by (relation "measure (\<lambda>(L, imp, s). work_left imp s)") (auto simp: connect_step_work_left)

declare connect_loop.simps [simp del]


text \<open>
  \<^verbatim>\<open>connect_armature(arma)\<close>: the loop from the bones the armature has, then the pose
  of every bone from the nif. The result is the armature as the method leaves it and
  the collisions found. (The import of the collision objects that follows in the source
  neither adds nor changes a bone and is left out.)
\<close>

definition connect_armature ::
  "('m, 'v, 'q) lib \<Rightarrow> 'm importer \<Rightarrow> 'm armature \<Rightarrow> py_error + ('m armature \<times> string list)" where
  "connect_armature L imp arma =
     (case connect_loop L imp
             \<lparr>cs_arma = arma, bones_to_parent = map bone_name (arma_bones arma),
              new_bones = [], collisions = [], cs_i = 0\<rparr> of
        Inl e \<Rightarrow> Inl e
      | Inr s \<Rightarrow> Inr (set_all_bone_poses L imp (cs_arma s) (nif imp), collisions s))"

section \<open>The order in which bones are created\<close>

text \<open>
  The bones of an armature are listed in the order of their creation, so the bones
  from position \<open>n0\<close> on are the ones created after the armature had \<open>n0\<close> bones.
  \<open>child_first n0 bs\<close> says that each of them has, strictly before it in the list, a
  bone whose parent it is.
\<close>

definition child_first :: "nat \<Rightarrow> 'm bone list \<Rightarrow> bool" where
  "child_first n0 bs =
     (\<forall>j. n0 \<le> j \<and> j < length bs \<longrightarrow>
        (\<exists>k<j. bone_parent (bs ! k) = Some (bone_name (bs ! j))))"

section \<open>Concrete files and armatures\<close>

definition znode :: "string \<Rightarrow> string option \<Rightarrow> real \<Rightarrow> zmat ninode" where
  "znode n par z =
     \<lparr>node_name = n, blockname = ''NiNode'',
      node_parent = map_option (\<lambda>p. \<lparr>pr_name = p, pr_nif_name = None\<rparr>) par,
      xform_to_global = translate_z z, collision_object = False\<rparr>"

definition znif :: "(string \<times> zmat ninode) list \<Rightarrow> zmat niffile" where
  "znif ns =
     \<lparr>nodes = ns, rootName = ''Scene Root'', nif_game = ''SKYRIM'',
      get_node_xform_to_global =
        (\<lambda>n. case map_of ns n of Some nd \<Rightarrow> xform_to_global nd | None \<Rightarrow> translate_z 0),
      dict_nif_name = (\<lambda>n. n), dict_blender_name = (\<lambda>n. n)\<rparr>"

definition zimporter :: "zmat niffile \<Rightarrow> zmat importer" where
  "zimporter nf =
     \<lparr>nif = nf, reference_skel = None, create_bones = False, rename_bones = False,
      rename_bones_nift = False, self_scale = 1, nodes_loaded = []\<rparr>"

definition zbone :: "string \<Rightarrow> string option \<Rightarrow> real \<Rightarrow> zmat bone" where
  "zbone n par z =
     \<lparr>bone_name = n, bone_parent = par, matrix_local = translate_z z,
      pose_matrix = translate_z z\<rparr>"

definition zarma :: "zmat bone list \<Rightarrow> zmat armature" where
  "zarma bs = \<lparr>arma_name = ''Armature'', arma_bones = bs, PYN_TRANSFORM = None\<rparr>"

text \<open>
  A file with the chain \<open>Scene Root\<close>, \<open>A\<close>, \<open>B\<close>, \<open>C\<close>, each the parent of the next,
  and a file in which \<open>A\<close> and \<open>B\<close> are each other's parent.
\<close>

definition chain_nif :: "zmat niffile" where
  "chain_nif = znif
     [(''Scene Root'', znode ''Scene Root'' None 0),
      (''A'', znode ''A'' (Some ''Scene Root'') 1),
      (''B'', znode ''B'' (Some ''A'') 2),
      (''C'', znode ''C'' (Some ''B'') 3)]"

definition cyclic_nif :: "zmat niffile" where
  "cyclic_nif = znif
     [(''A'', znode ''A'' (Some ''B'') 1),
      (''B'', znode ''B'' (Some ''A'') 2)]"

text \<open>
  Skinned shapes: without a global-to-skin transform when the first argument is
  \<open>None\<close>, using the bones listed, with the bind position and the pose transform of
  each bone given by the two functions.
\<close>

definition zshape ::
  "zmat option \<Rightarrow> string list \<Rightarrow> (string \<Rightarrow> zmat) \<Rightarrow> (string \<Rightarrow> zmat) \<Rightarrow> zmat nishape" where
  "zshape gts used bindpos posexf =
     \<lparr>shape_name = ''Body'', is_NiShape = True, has_skin_instance = True,
      shape_transform = translate_z 0,
      has_global_to_skin = (gts \<noteq> None),
      global_to_skin = (case gts of Some g \<Rightarrow> g | None \<Rightarrow> translate_z 0),
      bone_names = used, used_bones = used,
      bind_position = bindpos, pose_transform = posexf, shape_game = ''SKYRIM''\<rparr>"

definition boneless_shape :: "zmat nishape" where
  "boneless_shape = zshape None [] (\<lambda>b. translate_z 0) (\<lambda>b. translate_z 0)"

text \<open>
  A reference skeleton with \<open>Spine\<close> bound at 10 and \<open>Neck\<close> at 15 along z, an
  importer that creates bones from it, and a shape that binds \<open>Spine\<close> at 8 and
  \<open>Neck\<close> at 13 and has the global-to-skin transform that moves by -1.
\<close>

definition spine_skel :: "zmat niffile" where
  "spine_skel = znif
     [(''Scene Root'', znode ''Scene Root'' None 0),
      (''Spine'', znode ''Spine'' (Some ''Scene Root'') 10),
      (''Neck'', znode ''Neck'' (Some ''Spine'') 15)]"

definition spine_importer :: "zmat importer" where
  "spine_importer = (zimporter chain_nif)\<lparr>reference_skel := Some spine_skel, create_bones := True\<rparr>"

definition spine_bindpos :: "string \<Rightarrow> zmat" where
  "spine_bindpos b = (if b = ''Spine'' then translate_z 8 else translate_z 13)"

definition offset_shape :: "zmat nishape" where
  "offset_shape =
     zshape (Some (translate_z (- 1))) [''Spine'', ''Neck''] spine_bindpos (\<lambda>b. translate_z 0)"

text \<open>
  A shape that binds \<open>Spine\<close> at 8, loaded for the object \<open>Body\<close> that sits at the
  origin; a rig with \<open>Spine\<close> at 10 and a rig with \<open>Spine\<close> at 8.
\<close>

definition spine_shape :: "zmat nishape" where
  "spine_shape = zshape None [''Spine''] spine_bindpos (\<lambda>b. translate_z 0)"

definition match_importer :: "zmat importer" where
  "match_importer = (zimporter chain_nif)\<lparr>nodes_loaded := [(''Body'', spine_shape)]\<rparr>"

definition body_obj :: "zmat bobject" where
  "body_obj = \<lparr>obj_name = ''Body'', matrix_world = translate_z 0\<rparr>"

definition rig_at_10 :: "zmat armature" where
  "rig_at_10 = zarma [zbone ''Spine'' None 10]"

definition rig_at_8 :: "zmat armature" where
  "rig_at_8 = zarma [zbone ''Spine'' None 8]"

section \<open>Skeleton export: the parent index parameter\<close>

text \<open>
  An \<^verbatim>\<open>xml.etree.ElementTree\<close> element: tag, attributes in insertion order, text and
  children in document order.
\<close>

datatype xml = Element (el_tag: string) (el_attrib: "(string \<times> string) list")
  (el_text: string) (el_children: "xml list")

text \<open>Python's \<^verbatim>\<open>str\<close> on an integer: decimal digits, a minus sign when negative.\<close>

definition digit_char :: "nat \<Rightarrow> char" where
  "digit_char d = char_of (48 + d)"

fun str_nat :: "nat \<Rightarrow> string" where
  "str_nat n = (if n < 10 then [digit_char n] else str_nat (n div 10) @ [digit_char (n mod 10)])"

declare str_nat.simps [simp del]

definition str_int :: "int \<Rightarrow> string" where
  "str_int i = (if i < 0 then CHR ''-'' # str_nat (nat (- i)) else str_nat (nat i))"

text \<open>\<^verbatim>\<open>sep.join(parts)\<close> and \<^verbatim>\<open>range(a, b)\<close>.\<close>

fun join :: "string \<Rightarrow> string list \<Rightarrow> string" where
  "join sep [] = []"
| "join sep [p] = p"
| "join sep (p # q # ps) = p @ sep @ join sep (q # ps)"

definition py_range :: "int \<Rightarrow> int \<Rightarrow> int list" where
  "py_range a b = [a .. b - 1]"

text \<open>
  \<^verbatim>\<open>set_param(elem, attribs, txt)\<close> appends an \<^verbatim>\<open>hkparam\<close> child carrying the
  attributes and the text, and returns it; the model returns the parent as mutated
  together with the new child.
\<close>

definition set_param :: "xml \<Rightarrow> (string \<times> string) list \<Rightarrow> string \<Rightarrow> xml \<times> xml" where
  "set_param elem attribs txt =
     (let p = Element ''hkparam'' attribs txt []
      in (Element (el_tag elem) (el_attrib elem) (el_text elem) (el_children elem @ [p]), p))"

text \<open>
  \<^verbatim>\<open>elem.set(key, value)\<close>: replace the value of an attribute that is there, else add
  the attribute at the end.
\<close>

fun attr_update :: "string \<Rightarrow> string \<Rightarrow> (string \<times> string) list \<Rightarrow> (string \<times> string) list" where
  "attr_update k v [] = [(k, v)]"
| "attr_update k v ((k', v') # kvs) =
     (if k' = k then (k, v) # kvs else (k', v') # attr_update k v kvs)"

definition xml_set :: "xml \<Rightarrow> string \<Rightarrow> string \<Rightarrow> xml" where
  "xml_set elem k v =
     Element (el_tag elem) (attr_update k v (el_attrib elem)) (el_text elem) (el_children elem)"

text \<open>\<^verbatim>\<open>"#{:04}".format(n)\<close> for the block counter, which is never negative.\<close>

definition format_name :: "nat \<Rightarrow> string" where
  "format_name n = CHR ''#'' # replicate (4 - length (str_nat n)) CHR ''0'' @ str_nat n"

text \<open>
  A bone as the exporter sees it: \<^verbatim>\<open>b.name\<close>, \<^verbatim>\<open>b.parent\<close> (the parent's
  name, \<open>None\<close> for a root) and whether the pose bone is selected
  (\<^verbatim>\<open>x.bone.select\<close>).
\<close>

record export_bone =
  eb_name :: string
  eb_parent :: "string option"
  eb_select :: bool

text \<open>
  \<^verbatim>\<open>find_root(bones)\<close>: the first bone whose parent is not among the bones, else
  \<^verbatim>\<open>bones[0]\<close>, which raises on an empty list.
\<close>

definition find_root :: "export_bone list \<Rightarrow> py_error + export_bone" where
  "find_root bones =
     (case List.find (\<lambda>b. case eb_parent b of None \<Rightarrow> True
                            | Some p \<Rightarrow> p \<notin> set (map eb_name bones)) bones of
        Some b \<Rightarrow> Inr b
      | None \<Rightarrow> (case bones of [] \<Rightarrow> Inl IndexError | b # _ \<Rightarrow> Inr b))"

definition write_parentindices :: "xml \<Rightarrow> export_bone list \<Rightarrow> xml" where
  "write_parentindices skel bones =
     fst (set_param skel
            [(''name'', ''parentIndices''), (''numelements'', str_int (int (length bones)))]
            (join '' '' (map str_int (py_range (- 1) (int (length bones) - 1)))))"

fun write_bone_objects :: "xml \<Rightarrow> export_bone list \<Rightarrow> xml" where
  "write_bone_objects bonesparam [] = bonesparam"
| "write_bone_objects bonesparam (b # bs) =
     (let obj0 = Element ''hkobject'' [] [] [];
          obj1 = fst (set_param obj0 [(''name'', ''name'')] (eb_name b));
          obj2 = fst (set_param obj1 [(''name'', ''lockTranslation'')] ''false'')
      in write_bone_objects
           (Element (el_tag bonesparam) (el_attrib bonesparam) (el_text bonesparam)
              (el_children bonesparam @ [obj2])) bs)"

definition write_bones :: "xml \<Rightarrow> export_bone list \<Rightarrow> xml" where
  "write_bones skel bones =
     (let bonesparam = Element ''hkparam''
            [(''name'', ''bones''), (''numelements'', str_int (int (length bones)))] [] []
      in Element (el_tag skel) (el_attrib skel) (el_text skel)
           (el_children skel @ [write_bone_objects bonesparam bones]))"

text \<open>
  \<^verbatim>\<open>write_skel\<close>. The exported bones are the selected pose bones, in the armature's
  order. Two things are parameters: \<open>signature\<close>, the BLAKE2 digest that
  \<^verbatim>\<open>set_signature\<close> writes, and \<open>pose_txt\<close>, the text that \<^verbatim>\<open>write_pose\<close>
  formats from the bones' matrices. The result is the \<^verbatim>\<open>hksection\<close> with the new
  skeleton object appended, the skeleton object, and the block counter.
\<close>

definition write_skel ::
  "(string \<Rightarrow> string list \<Rightarrow> string) \<Rightarrow> (export_bone list \<Rightarrow> string) \<Rightarrow>
   nat \<Rightarrow> xml \<Rightarrow> export_bone list \<Rightarrow> py_error + (xml \<times> xml \<times> nat)" where
  "write_skel signature pose_txt block_index section' posebones =
     (let bones = filter eb_select posebones
      in case find_root bones of
           Inl e \<Rightarrow> Inl e
         | Inr rootbone \<Rightarrow>
             (let skel0 = Element ''hkobject'' [] [] [];
                  skel1 = xml_set skel0 ''name'' (format_name block_index);
                  skel2 = xml_set skel1 ''class'' ''hkaSkeleton'';
                  skel3 = xml_set skel2 ''signature''
                            (''0x'' @ signature ''hkaSkeleton'' (map eb_name bones));
                  skel4 = fst (set_param skel3 [(''name'', ''name'')] (eb_name rootbone));
                  skel5 = write_parentindices skel4 bones;
                  skel6 = write_bones skel5 bones;
                  skel7 = fst (set_param skel6
                            [(''name'', ''referencePose''),
                             (''numelements'', str_int (int (length bones)))] (pose_txt bones));
                  skel8 = fst (set_param skel7
                            [(''name'', ''referenceFloats''), (''numelements'', ''0'')] []);
                  skel9 = fst (set_param skel8
                            [(''name'', ''floatSlots''), (''numelements'', ''0'')] []);
                  skel10 = fst (set_param skel9
                            [(''name'', ''localFrames''), (''numelements'', ''0'')] [])
              in Inr (Element (el_tag section') (el_attrib section') (el_text section')
                        (el_children section' @ [skel10]),
                      skel10, Suc block_index)))"

text \<open>The parent indices as the chain they always are, for \<open>n\<close> bones.\<close>

definition index_chain :: "nat \<Rightarrow> string" where
  "index_chain n = join '' '' (map (\<lambda>k. str_int (int k - 1)) [0 ..< n])"

text \<open>
  Three selected bones, two of them children of the first, and one bone that is not
  selected: the indices written are \<open>-1 0 1\<close>, where the armature's parents would
  give \<open>-1 0 0\<close>.
\<close>

definition star_bones :: "export_bone list" where
  "star_bones =
     [\<lparr>eb_name = ''Root'', eb_parent = None, eb_select = True\<rparr>,
      \<lparr>eb_name = ''Left'', eb_parent = Some ''Root'', eb_select = True\<rparr>,
      \<lparr>eb_name = ''Tail'', eb_parent = Some ''Root'', eb_select = False\<rparr>,
      \<lparr>eb_name = ''Right'', eb_parent = Some ''Root'', eb_select = True\<rparr>]"

section \<open>Properties\<close>

subsection \<open>Scaling the translation only\<close>

text \<open>
  C8. With a matrix library whose decomposition is stable, \<open>apply_scale_transl T s\<close>
  decomposes into the rotation of \<open>T\<close>, the scale of \<open>T\<close> and the location of \<open>T\<close>
  multiplied by \<open>s\<close>: only the translation changes, by the factor \<open>s\<close>.
\<close>

theorem apply_scale_transl_frame:
  assumes "decompose_stable L"
    and "decompose L T = (loc, rot, scale)"
  shows "decompose L (apply_scale_transl L T s) = (vscale L loc s, rot, scale)"
proof -
  from assms(1) have "decompose L (MatrixLocRotScale L (vscale L loc s)
      (fst (snd (decompose L T))) (snd (snd (decompose L T))))
      = (vscale L loc s, fst (snd (decompose L T)), snd (snd (decompose L T)))"
    by (simp add: decompose_stable_def Let_def)
  with assms(2) show ?thesis
    by (simp add: apply_scale_transl_def)
qed

lemma zlib_decompose_stable: "decompose_stable zlib"
  by (simp add: decompose_stable_def zlib_def Let_def)

theorem apply_scale_transl_frame_witness:
  "decompose_stable zlib
   \<and> decompose zlib \<lparr>tz = 8, sc = 2, ww = 1\<rparr> = (8, (), 2)
   \<and> decompose zlib (apply_scale_transl zlib \<lparr>tz = 8, sc = 2, ww = 1\<rparr> (1 / 10))
       = (vscale zlib 8 (1 / 10), (), 2)
   \<and> vscale zlib 8 (1 / 10) = 4 / 5"
proof -
  have d: "decompose zlib \<lparr>tz = 8, sc = 2, ww = 1\<rparr> = (8, (), 2)"
    by (simp add: zlib_def)
  have v: "vscale zlib 8 (1 / 10) = 4 / 5"
    by (simp add: zlib_def)
  from apply_scale_transl_frame [OF zlib_decompose_stable d, of "1 / 10"]
    zlib_decompose_stable d v
  show ?thesis by simp
qed

subsection \<open>The parent indices written on export\<close>

lemma length_py_range: "length (py_range a b) = nat (b - a)"
  by (simp add: py_range_def)

lemma nth_py_range: "k < nat (b - a) \<Longrightarrow> py_range a b ! k = a + int k"
  by (simp add: py_range_def)

lemma py_range_chain: "py_range (- 1) (int n - 1) = map (\<lambda>k. int k - 1) [0 ..< n]"
  by (rule nth_equalityI) (simp_all add: length_py_range nth_py_range)

lemma find_root_nonempty: "bones \<noteq> [] \<Longrightarrow> \<exists>b. find_root bones = Inr b"
  by (cases bones) (auto simp: find_root_def split: option.splits)

lemma write_parentindices_children:
  "el_children (write_parentindices skel bones) =
     el_children skel @ [Element ''hkparam''
       [(''name'', ''parentIndices''), (''numelements'', str_int (int (length bones)))]
       (index_chain (length bones)) []]"
  by (simp add: write_parentindices_def set_param_def Let_def index_chain_def py_range_chain
      comp_def)

lemma el_children_xml_set [simp]: "el_children (xml_set e k v) = el_children e"
  by (simp add: xml_set_def)

lemma el_children_set_param [simp]:
  "el_children (fst (set_param e a t)) = el_children e @ [Element ''hkparam'' a t []]"
  by (simp add: set_param_def Let_def)

text \<open>
  C10. Whenever at least one pose bone is selected, \<open>write_skel\<close> succeeds and the second
  child of the skeleton object is the \<open>parentIndices\<close> parameter whose element count is
  the number \<open>n\<close> of selected bones and whose text is the chain \<open>-1 0 1 ... n-2\<close>:
  it depends on how many bones are exported and on nothing else, in particular not on
  their parents.
\<close>

theorem write_skel_parentindices:
  assumes "filter eb_select posebones \<noteq> []"
  shows "\<exists>section2 skel k.
           write_skel signature pose_txt block_index section1 posebones = Inr (section2, skel, k)
         \<and> el_children skel ! 1 =
             Element ''hkparam''
               [(''name'', ''parentIndices''),
                (''numelements'', str_int (int (length (filter eb_select posebones))))]
               (index_chain (length (filter eb_select posebones))) []"
proof -
  let ?bones = "filter eb_select posebones"
  from find_root_nonempty [OF assms] obtain r where r: "find_root ?bones = Inr r" by blast
  obtain c where c: "\<And>s. el_children (write_bones s ?bones) = el_children s @ [c]"
    by (simp add: write_bones_def Let_def)
  show ?thesis
    using r by (simp add: write_skel_def Let_def c write_parentindices_children nth_append)
qed

lemma index_chain_3: "index_chain 3 = ''-1 0 1''"
  by code_simp

lemma str_int_3: "str_int 3 = ''3''"
  by code_simp

theorem write_skel_parentindices_witness:
  "filter eb_select star_bones \<noteq> []
   \<and> (\<exists>section2 skel k.
         write_skel (\<lambda>seed names. ''00000000'') (\<lambda>bones. []) 50
           (Element ''hksection'' [(''name'', ''__data__'')] [] []) star_bones
           = Inr (section2, skel, k)
       \<and> el_children skel ! 1 =
           Element ''hkparam'' [(''name'', ''parentIndices''), (''numelements'', ''3'')]
             ''-1 0 1'' [])"
proof -
  have sel: "filter eb_select star_bones \<noteq> []"
    by (simp add: star_bones_def)
  have len: "length (filter eb_select star_bones) = 3"
    by (simp add: star_bones_def)
  from write_skel_parentindices [OF sel, of "\<lambda>seed names. ''00000000''" "\<lambda>bones. []" 50
      "Element ''hksection'' [(''name'', ''__data__'')] [] []"]
  show ?thesis
    by (simp add: sel len index_chain_3 str_int_3)
qed

subsection \<open>The hierarchy walk returns\<close>

lemma find_bone_Some: "n \<in> set (map bone_name bs) \<Longrightarrow> \<exists>b. find_bone bs n = Some b"
  by (induction bs) (auto simp: find_bone_def)

lemma add_bone_ok:
  "self_scale imp \<noteq> 0 \<Longrightarrow> \<exists>r. add_bone_to_arma L imp arma bn nn = Inr r"
  by (simp add: add_bone_to_arma_def Let_def split: option.splits)

lemma connect_step_ok:
  assumes "cs_i s < length (bones_to_parent s)"
    and "set (bones_to_parent s) \<subseteq> set (map bone_name (arma_bones (cs_arma s)))"
    and "self_scale imp \<noteq> 0"
  shows "\<exists>s'. connect_step L imp s = Inr s'"
proof -
  let ?bn = "bones_to_parent s ! cs_i s"
  from assms(1,2) have "?bn \<in> set (map bone_name (arma_bones (cs_arma s)))"
    using nth_mem by blast
  from find_bone_Some [OF this] obtain b
    where b: "find_bone (arma_bones (cs_arma s)) ?bn = Some b" by blast
  show ?thesis
  proof (cases "find_parent L imp ?bn")
    case None
    with b show ?thesis by (simp add: connect_step_def Let_def)
  next
    case (Some pp)
    obtain pn pnn where pp: "pp = (pn, pnn)" by (cases pp)
    from add_bone_ok [OF assms(3)] obtain a r
      where "add_bone_to_arma L imp (cs_arma s) pn pnn = Inr (a, r)" by fastforce
    with b Some pp show ?thesis by (simp add: connect_step_def Let_def)
  qed
qed

lemma connect_step_subset:
  assumes "connect_step L imp s = Inr s'"
    and "set (bones_to_parent s) \<subseteq> set (map bone_name (arma_bones (cs_arma s)))"
  shows "set (bones_to_parent s') \<subseteq> set (map bone_name (arma_bones (cs_arma s')))"
proof -
  from connect_step_shape [OF assms(1)] consider
    (same) "map bone_name (arma_bones (cs_arma s')) = map bone_name (arma_bones (cs_arma s))"
      "bones_to_parent s' = bones_to_parent s"
  | (grown) pn where
      "map bone_name (arma_bones (cs_arma s')) = map bone_name (arma_bones (cs_arma s)) @ [pn]"
      "bones_to_parent s' = bones_to_parent s @ [pn]"
    by blast
  then show ?thesis
  proof cases
    case same
    with assms(2) show ?thesis by simp
  next
    case grown
    have "set (bones_to_parent s') = insert pn (set (bones_to_parent s))"
      by (simp add: grown(2))
    moreover have "set (map bone_name (arma_bones (cs_arma s')))
        = insert pn (set (map bone_name (arma_bones (cs_arma s))))"
      by (simp only: grown(1)) simp
    ultimately show ?thesis using assms(2) by blast
  qed
qed

lemma connect_loop_ok:
  "set (bones_to_parent s) \<subseteq> set (map bone_name (arma_bones (cs_arma s))) \<Longrightarrow>
   self_scale imp \<noteq> 0 \<Longrightarrow> \<exists>t. connect_loop L imp s = Inr t"
proof (induction L imp s rule: connect_loop.induct)
  case (1 L imp s)
  show ?case
  proof (cases "cs_i s < length (bones_to_parent s)")
    case True
    from connect_step_ok [OF True "1.prems"] obtain s' where s': "connect_step L imp s = Inr s'"
      by blast
    from "1.IH" [OF True s' connect_step_subset [OF s' "1.prems"(1)] "1.prems"(2)]
    obtain t where "connect_loop L imp s' = Inr t" by blast
    with True s' show ?thesis by (subst connect_loop.simps) simp
  next
    case False
    then show ?thesis by (subst connect_loop.simps) simp
  qed
qed

lemma connect_loop_invariant:
  assumes "\<And>s s'. P s \<Longrightarrow> cs_i s < length (bones_to_parent s) \<Longrightarrow>
                   connect_step L imp s = Inr s' \<Longrightarrow> P s'"
    and "P s" and "connect_loop L imp s = Inr t"
  shows "P t"
  using assms
proof (induction L imp s rule: connect_loop.induct)
  case (1 L imp s)
  show ?case
  proof (cases "cs_i s < length (bones_to_parent s)")
    case True
    from "1.prems"(3) True have
      "(case connect_step L imp s of Inl e \<Rightarrow> Inl e | Inr s' \<Rightarrow> connect_loop L imp s') = Inr t"
      by (subst (asm) connect_loop.simps) simp
    then obtain s' where s': "connect_step L imp s = Inr s'"
      and t: "connect_loop L imp s' = Inr t"
      by (cases "connect_step L imp s") simp_all
    have Ps': "P s'" using "1.prems"(1) [OF "1.prems"(2) True s'] .
    show ?thesis
      by (rule "1.IH" [OF True s' _ Ps' t]) (blast intro: "1.prems"(1))
  next
    case False
    with "1.prems"(3) have "t = s" by (subst (asm) connect_loop.simps) simp
    with "1.prems"(2) show ?thesis by simp
  qed
qed

subsection \<open>What one pass of the walk does to the bones\<close>

lemma update_bone_find:
  "find_bone bs n = Some b \<Longrightarrow> \<exists>k<length bs. bs ! k = b \<and> update_bone n f bs = bs[k := f b]"
proof (induction bs)
  case Nil
  then show ?case by (simp add: find_bone_def)
next
  case (Cons a bs)
  show ?case
  proof (cases "bone_name a = n")
    case True
    with Cons.prems have "a = b" by (simp add: find_bone_def)
    with True show ?thesis by (intro exI [of _ 0]) simp
  next
    case False
    with Cons.prems have "find_bone bs n = Some b" by (simp add: find_bone_def)
    from Cons.IH [OF this] obtain k where "k < length bs" "bs ! k = b"
      "update_bone n f bs = bs[k := f b]" by blast
    with False show ?thesis by (intro exI [of _ "Suc k"]) simp
  qed
qed

lemma update_bone_append:
  "find_bone bs n = Some b \<Longrightarrow> update_bone n f (bs @ cs) = update_bone n f bs @ cs"
  by (induction bs) (auto simp: find_bone_def)

lemma add_bone_new_bones:
  "add_bone_to_arma L imp arma bn nn = Inr (arma', r) \<Longrightarrow> \<not> has_bone (arma_bones arma) bn \<Longrightarrow>
   \<exists>nb. bone_name nb = bn \<and> arma_bones arma' = arma_bones arma @ [nb] \<and> r = Some bn"
  by (auto simp: add_bone_to_arma_def create_bone_def Let_def split: option.splits if_splits)

lemma connect_step_bones:
  assumes "connect_step L imp s = Inr s'"
  shows "arma_bones (cs_arma s') = arma_bones (cs_arma s)
     \<or> (\<exists>k pn. k < length (arma_bones (cs_arma s))
           \<and> bone_parent (arma_bones (cs_arma s) ! k) = None
           \<and> (arma_bones (cs_arma s')
                = (arma_bones (cs_arma s))
                    [k := (arma_bones (cs_arma s) ! k)\<lparr>bone_parent := Some pn\<rparr>]
              \<or> (\<exists>nb. bone_name nb = pn
                   \<and> arma_bones (cs_arma s')
                       = (arma_bones (cs_arma s) @ [nb])
                           [k := (arma_bones (cs_arma s) ! k)\<lparr>bone_parent := Some pn\<rparr>])))"
proof -
  let ?bs = "arma_bones (cs_arma s)"
  let ?bn = "bones_to_parent s ! cs_i s"
  from assms obtain b where b: "find_bone ?bs ?bn = Some b"
    by (cases "find_bone ?bs ?bn") (simp_all add: connect_step_def Let_def)
  show ?thesis
  proof (cases "bone_parent b = None")
    case False
    with assms b show ?thesis by (auto simp: connect_step_def Let_def)
  next
    case True
    show ?thesis
    proof (cases "find_parent L imp ?bn")
      case None
      with assms b True show ?thesis by (auto simp: connect_step_def Let_def)
    next
      case (Some pp)
      obtain pn pnn where pp: "pp = (pn, pnn)" by (cases pp)
      show ?thesis
      proof (cases "pn = []")
        case e: True
        with assms b True Some pp show ?thesis by (auto simp: connect_step_def Let_def)
      next
        case ne: False
        show ?thesis
        proof (cases "has_bone ?bs pn")
          case hb: True
          from update_bone_find [OF b, of "\<lambda>b. b\<lparr>bone_parent := Some pn\<rparr>"]
          obtain k where k: "k < length ?bs" "?bs ! k = b"
            "update_bone ?bn (\<lambda>b. b\<lparr>bone_parent := Some pn\<rparr>) ?bs
               = ?bs[k := b\<lparr>bone_parent := Some pn\<rparr>]" by blast
          from assms b True Some pp ne hb
          have "arma_bones (cs_arma s') = update_bone ?bn (\<lambda>b. b\<lparr>bone_parent := Some pn\<rparr>) ?bs"
            by (auto simp: connect_step_def Let_def)
          with k True show ?thesis by auto
        next
          case nhb: False
          from assms b True Some pp ne nhb obtain arma' r where
            add: "add_bone_to_arma L imp (cs_arma s) pn pnn = Inr (arma', r)"
            and s': "arma_bones (cs_arma s')
                 = update_bone ?bn (\<lambda>b. b\<lparr>bone_parent := r\<rparr>) (arma_bones arma')"
            by (auto simp: connect_step_def Let_def split: sum.splits)
          from add_bone_new_bones [OF add nhb] obtain nb where nb: "bone_name nb = pn"
            "arma_bones arma' = ?bs @ [nb]" "r = Some pn" by blast
          from update_bone_find [OF b, of "\<lambda>b. b\<lparr>bone_parent := Some pn\<rparr>"]
          obtain k where k: "k < length ?bs" "?bs ! k = b"
            "update_bone ?bn (\<lambda>b. b\<lparr>bone_parent := Some pn\<rparr>) ?bs
               = ?bs[k := b\<lparr>bone_parent := Some pn\<rparr>]" by blast
          have "arma_bones (cs_arma s') = (?bs @ [nb])[k := b\<lparr>bone_parent := Some pn\<rparr>]"
            using s' nb k update_bone_append [OF b] by (simp add: list_update_append1)
          with k True nb show ?thesis by auto
        qed
      qed
    qed
  qed
qed

lemma child_first_set_parent:
  assumes "child_first n0 bs" and "k < length bs" and "bone_parent (bs ! k) = None"
  shows "child_first n0 (bs[k := (bs ! k)\<lparr>bone_parent := Some pn\<rparr>])"
  unfolding child_first_def
proof (intro allI impI)
  fix j
  let ?bs' = "bs[k := (bs ! k)\<lparr>bone_parent := Some pn\<rparr>]"
  assume j: "n0 \<le> j \<and> j < length ?bs'"
  then have "n0 \<le> j \<and> j < length bs" by simp
  with assms(1) obtain k' where k': "k' < j" "bone_parent (bs ! k') = Some (bone_name (bs ! j))"
    unfolding child_first_def by blast
  from k' assms(3) have "k' \<noteq> k" by auto
  then have "?bs' ! k' = bs ! k'" by simp
  moreover have "bone_name (?bs' ! j) = bone_name (bs ! j)"
    using j by (cases "j = k") simp_all
  ultimately show "\<exists>k<j. bone_parent (?bs' ! k) = Some (bone_name (?bs' ! j))"
    using k' by metis
qed

lemma child_first_add:
  assumes "child_first n0 bs" and "k < length bs" and "bone_parent (bs ! k) = None"
    and "bone_name nb = pn"
  shows "child_first n0 ((bs @ [nb])[k := (bs ! k)\<lparr>bone_parent := Some pn\<rparr>])"
  unfolding child_first_def
proof (intro allI impI)
  fix j
  let ?cs = "bs[k := (bs ! k)\<lparr>bone_parent := Some pn\<rparr>]"
  let ?bs' = "(bs @ [nb])[k := (bs ! k)\<lparr>bone_parent := Some pn\<rparr>]"
  have eq: "?bs' = ?cs @ [nb]" using assms(2) by (simp add: list_update_append1)
  assume j: "n0 \<le> j \<and> j < length ?bs'"
  show "\<exists>k<j. bone_parent (?bs' ! k) = Some (bone_name (?bs' ! j))"
  proof (cases "j < length bs")
    case True
    from child_first_set_parent [OF assms(1-3), of pn] j True
    obtain k' where "k' < j" "bone_parent (?cs ! k') = Some (bone_name (?cs ! j))"
      unfolding child_first_def by auto
    with True show ?thesis unfolding eq by (intro exI [of _ k']) (simp add: nth_append)
  next
    case False
    with j have jl: "j = length bs" by simp
    have "bone_parent (?bs' ! k) = Some pn" using assms(2) unfolding eq by (simp add: nth_append)
    moreover have "bone_name (?bs' ! j) = pn" using assms(4) jl unfolding eq by (simp add: nth_append)
    ultimately show ?thesis using assms(2) jl by auto
  qed
qed

lemma connect_step_child_first:
  assumes "connect_step L imp s = Inr s'" and "child_first n0 (arma_bones (cs_arma s))"
  shows "child_first n0 (arma_bones (cs_arma s'))"
  using connect_step_bones [OF assms(1)] assms(2)
  by (auto intro: child_first_set_parent child_first_add)

lemma connect_step_prefix:
  assumes "connect_step L imp s = Inr s'"
    and "take n0 (map bone_name (arma_bones (cs_arma s))) = ns" and "length ns = n0"
  shows "take n0 (map bone_name (arma_bones (cs_arma s'))) = ns"
proof -
  from assms(2,3) have le: "n0 \<le> length (map bone_name (arma_bones (cs_arma s)))"
    by (metis length_take min.cobounded1 min.commute)
  from connect_step_shape [OF assms(1)] consider
    "map bone_name (arma_bones (cs_arma s')) = map bone_name (arma_bones (cs_arma s))"
  | pn where
    "map bone_name (arma_bones (cs_arma s')) = map bone_name (arma_bones (cs_arma s)) @ [pn]"
    by blast
  then show ?thesis
  proof cases
    case 1
    with assms(2) show ?thesis by simp
  next
    case 2
    with assms(2) le show ?thesis by (simp only: take_append) simp
  qed
qed

subsection \<open>Creation order in \<open>connect_armature\<close>\<close>

lemma parents_update_bone:
  "(\<And>b. bone_parent (f b) = bone_parent b) \<Longrightarrow>
   map bone_parent (update_bone n f bs) = map bone_parent bs"
  by (induction bs) auto

lemma set_bone_poses_names:
  "map bone_name (arma_bones (set_bone_poses L imp arma nf bl)) = map bone_name (arma_bones arma)"
proof (induction bl arbitrary: arma)
  case Nil
  show ?case by simp
next
  case (Cons p bl)
  obtain bn blname where p: "p = (bn, blname)" by (cases p)
  show ?case
    unfolding p by (simp add: Cons.IH names_update_bone split: option.splits)
qed

lemma set_bone_poses_parents:
  "map bone_parent (arma_bones (set_bone_poses L imp arma nf bl))
     = map bone_parent (arma_bones arma)"
proof (induction bl arbitrary: arma)
  case Nil
  show ?case by simp
next
  case (Cons p bl)
  obtain bn blname where p: "p = (bn, blname)" by (cases p)
  show ?case
    unfolding p by (simp add: Cons.IH parents_update_bone split: option.splits)
qed

lemma child_first_cong:
  assumes "map bone_name bs' = map bone_name bs" and "map bone_parent bs' = map bone_parent bs"
  shows "child_first n0 bs' = child_first n0 bs"
proof -
  from assms(1) have len: "length bs' = length bs" by (metis length_map)
  have n: "bone_name (bs' ! j) = bone_name (bs ! j)" if "j < length bs" for j
    using that len assms(1) by (metis nth_map)
  have p: "bone_parent (bs' ! j) = bone_parent (bs ! j)" if "j < length bs" for j
    using that len assms(2) by (metis nth_map)
  show ?thesis
    unfolding child_first_def len
    by (intro all_cong1 imp_cong refl ex_cong1 conj_cong) (simp add: n p)
qed

lemma connect_armature_result:
  assumes "self_scale imp \<noteq> 0"
  obtains t where
    "connect_loop L imp \<lparr>cs_arma = arma, bones_to_parent = map bone_name (arma_bones arma),
        new_bones = [], collisions = [], cs_i = 0\<rparr> = Inr t"
    "connect_armature L imp arma
       = Inr (set_all_bone_poses L imp (cs_arma t) (nif imp), collisions t)"
proof -
  let ?s0 = "\<lparr>cs_arma = arma, bones_to_parent = map bone_name (arma_bones arma),
        new_bones = [], collisions = [], cs_i = 0\<rparr> :: 'a conn_state"
  have "set (bones_to_parent ?s0) \<subseteq> set (map bone_name (arma_bones (cs_arma ?s0)))" by simp
  from connect_loop_ok [OF this assms] obtain t where t: "connect_loop L imp ?s0 = Inr t"
    by blast
  then have "connect_armature L imp arma
       = Inr (set_all_bone_poses L imp (cs_arma t) (nif imp), collisions t)"
    by (simp add: connect_armature_def)
  with t that show ?thesis by blast
qed

text \<open>
  C3, the claim as stated, fails: on the chain \<open>A\<close>, \<open>B\<close>, \<open>C\<close> with only \<open>C\<close> in the
  armature, the walk creates \<open>B\<close> and then \<open>A\<close>. Both are new, \<open>A\<close> is the parent of
  \<open>B\<close>, and \<open>A\<close> is created after \<open>B\<close>.
\<close>

theorem connect_armature_parent_after_child:
  "connect_armature zlib (zimporter chain_nif) (zarma [zbone ''C'' None 3])
     = Inr (zarma [zbone ''C'' (Some ''B'') 3, zbone ''B'' (Some ''A'') 2, zbone ''A'' None 1], [])"
  by code_simp

text \<open>
  C3, amended. \<open>connect_armature\<close> creates bones from the child upwards: when the scale
  is not zero it returns, the bones the armature had keep their places at the front,
  and every bone created during the pass comes strictly after a bone whose parent it
  is (the bone whose missing parent it was created to be).
\<close>

theorem connect_armature_child_before_parent:
  assumes "self_scale imp \<noteq> 0"
  shows "\<exists>arma' cols. connect_armature L imp arma = Inr (arma', cols)
     \<and> take (length (arma_bones arma)) (map bone_name (arma_bones arma'))
         = map bone_name (arma_bones arma)
     \<and> child_first (length (arma_bones arma)) (arma_bones arma')"
proof -
  let ?n0 = "length (arma_bones arma)"
  let ?s0 = "\<lparr>cs_arma = arma, bones_to_parent = map bone_name (arma_bones arma),
        new_bones = [], collisions = [], cs_i = 0\<rparr> :: 'a conn_state"
  let ?P = "\<lambda>s. child_first ?n0 (arma_bones (cs_arma s))
     \<and> take ?n0 (map bone_name (arma_bones (cs_arma s))) = map bone_name (arma_bones arma)"
  from connect_armature_result [OF assms, of L arma] obtain t where
    t: "connect_loop L imp ?s0 = Inr t"
    and r: "connect_armature L imp arma
       = Inr (set_all_bone_poses L imp (cs_arma t) (nif imp), collisions t)" by blast
  have P0: "?P ?s0" by (auto simp: child_first_def)
  have step: "\<And>s s'. ?P s \<Longrightarrow> cs_i s < length (bones_to_parent s) \<Longrightarrow>
      connect_step L imp s = Inr s' \<Longrightarrow> ?P s'"
    using connect_step_child_first connect_step_prefix by (metis length_map)
  have Pt: "?P t" by (rule connect_loop_invariant [where P = ?P, OF step P0 t])
  let ?a = "set_all_bone_poses L imp (cs_arma t) (nif imp)"
  have n: "map bone_name (arma_bones ?a) = map bone_name (arma_bones (cs_arma t))"
    by (simp add: set_all_bone_poses_def set_bone_poses_names)
  have p: "map bone_parent (arma_bones ?a) = map bone_parent (arma_bones (cs_arma t))"
    by (simp add: set_all_bone_poses_def set_bone_poses_parents)
  from Pt have "child_first ?n0 (arma_bones ?a)" by (simp add: child_first_cong [OF n p])
  moreover from Pt have "take ?n0 (map bone_name (arma_bones ?a)) = map bone_name (arma_bones arma)"
    by (simp only: n)
  ultimately show ?thesis using r by blast
qed

theorem connect_armature_child_before_parent_witness:
  "self_scale (zimporter chain_nif) \<noteq> 0
   \<and> (\<exists>arma' cols.
         connect_armature zlib (zimporter chain_nif) (zarma [zbone ''C'' None 3])
           = Inr (arma', cols)
       \<and> take 1 (map bone_name (arma_bones arma')) = [''C'']
       \<and> child_first 1 (arma_bones arma'))"
proof -
  have s: "self_scale (zimporter chain_nif) \<noteq> 0" by (simp add: zimporter_def)
  from connect_armature_child_before_parent [OF s, of zlib "zarma [zbone ''C'' None 3]"]
  show ?thesis using s by (simp add: zarma_def zbone_def)
qed

subsection \<open>A cyclic source hierarchy\<close>

lemma connect_step_distinct:
  assumes "connect_step L imp s = Inr s'"
    and "distinct (map bone_name (arma_bones (cs_arma s)))
         \<and> set (map bone_name (arma_bones (cs_arma s))) \<subseteq> N \<union> set (candidates imp)"
  shows "distinct (map bone_name (arma_bones (cs_arma s')))
         \<and> set (map bone_name (arma_bones (cs_arma s'))) \<subseteq> N \<union> set (candidates imp)"
proof -
  from connect_step_shape [OF assms(1)] consider
    "map bone_name (arma_bones (cs_arma s')) = map bone_name (arma_bones (cs_arma s))"
  | pn where "pn \<in> set (candidates imp)"
    "pn \<notin> set (map bone_name (arma_bones (cs_arma s)))"
    "map bone_name (arma_bones (cs_arma s')) = map bone_name (arma_bones (cs_arma s)) @ [pn]"
    by blast
  then show ?thesis
  proof cases
    case 1
    with assms(2) show ?thesis by (simp only:)
  next
    case 2
    from assms(2) have d0: "distinct (map bone_name (arma_bones (cs_arma s)))"
      and sub0: "set (map bone_name (arma_bones (cs_arma s))) \<subseteq> N \<union> set (candidates imp)"
      by (rule conjunct1, rule conjunct2)
    have d: "distinct (map bone_name (arma_bones (cs_arma s)) @ [pn])"
      using 2(2) d0 by simp
    have sub: "set (map bone_name (arma_bones (cs_arma s)) @ [pn]) \<subseteq> N \<union> set (candidates imp)"
      using 2(1) sub0 by simp
    show ?thesis unfolding 2(3) using d sub by (rule conjI)
  qed
qed

text \<open>
  C4, the claim as stated, fails: where \<open>A\<close> and \<open>B\<close> are each other's parent in the
  file and the armature has \<open>A\<close>, the method returns normally, with the bones \<open>A\<close>
  and \<open>B\<close>. It keeps no set of visited bones and has no error for a cycle.
\<close>

theorem connect_armature_cyclic_no_error:
  "\<not> isl (connect_armature zlib (zimporter cyclic_nif) (zarma [zbone ''A'' None 1]))
   \<and> map bone_name (arma_bones (fst (projr
         (connect_armature zlib (zimporter cyclic_nif) (zarma [zbone ''A'' None 1])))))
       = [''A'', ''B'']"
  by code_simp

text \<open>
  C4, amended. For every source hierarchy, one with a cycle included, and every
  armature whose bone names are distinct, \<open>connect_armature\<close> terminates and, when the
  scale is not zero, returns normally. What bounds it is that a bone is created only
  under a name the armature does not have yet: the names stay distinct, and every new
  one is the Blender name of the parent of a node of the file or of the reference
  skeleton.
\<close>

theorem connect_armature_returns:
  assumes "self_scale imp \<noteq> 0" and "distinct (map bone_name (arma_bones arma))"
  shows "\<exists>arma' cols. connect_armature L imp arma = Inr (arma', cols)
     \<and> distinct (map bone_name (arma_bones arma'))
     \<and> set (map bone_name (arma_bones arma'))
         \<subseteq> set (map bone_name (arma_bones arma)) \<union> set (candidates imp)"
proof -
  let ?N = "set (map bone_name (arma_bones arma))"
  let ?s0 = "\<lparr>cs_arma = arma, bones_to_parent = map bone_name (arma_bones arma),
        new_bones = [], collisions = [], cs_i = 0\<rparr> :: 'a conn_state"
  let ?P = "\<lambda>s. distinct (map bone_name (arma_bones (cs_arma s)))
     \<and> set (map bone_name (arma_bones (cs_arma s))) \<subseteq> ?N \<union> set (candidates imp)"
  from connect_armature_result [OF assms(1), of L arma] obtain t where
    t: "connect_loop L imp ?s0 = Inr t"
    and r: "connect_armature L imp arma
       = Inr (set_all_bone_poses L imp (cs_arma t) (nif imp), collisions t)" by blast
  have P0: "?P ?s0" using assms(2) by simp
  have step: "\<And>s s'. ?P s \<Longrightarrow> cs_i s < length (bones_to_parent s) \<Longrightarrow>
      connect_step L imp s = Inr s' \<Longrightarrow> ?P s'"
    by (rule connect_step_distinct)
  have Pt: "?P t" by (rule connect_loop_invariant [where P = ?P, OF step P0 t])
  let ?a = "set_all_bone_poses L imp (cs_arma t) (nif imp)"
  have n: "map bone_name (arma_bones ?a) = map bone_name (arma_bones (cs_arma t))"
    by (simp add: set_all_bone_poses_def set_bone_poses_names)
  from Pt have "?P \<lparr>cs_arma = ?a, bones_to_parent = [], new_bones = [], collisions = [],
      cs_i = 0\<rparr>"
    by (simp only: n conn_state.simps)
  then show ?thesis using r by simp
qed

lemma candidates_cyclic: "candidates (zimporter cyclic_nif) = [''B'', ''A'']"
  by code_simp

theorem connect_armature_returns_witness:
  "self_scale (zimporter cyclic_nif) \<noteq> 0
   \<and> distinct (map bone_name (arma_bones (zarma [zbone ''A'' None 1])))
   \<and> (\<exists>arma' cols.
         connect_armature zlib (zimporter cyclic_nif) (zarma [zbone ''A'' None 1])
           = Inr (arma', cols)
       \<and> distinct (map bone_name (arma_bones arma'))
       \<and> set (map bone_name (arma_bones arma')) \<subseteq> {''A'', ''B''})"
proof -
  have s: "self_scale (zimporter cyclic_nif) \<noteq> 0" by (simp add: zimporter_def)
  have d: "distinct (map bone_name (arma_bones (zarma [zbone ''A'' None 1])))"
    by (simp add: zarma_def)
  from connect_armature_returns [OF s d, of zlib]
  show ?thesis using s d by (simp add: zarma_def zbone_def candidates_cyclic insert_commute)
qed

subsection \<open>Adding a bone twice\<close>

lemma add_bone_has_bone:
  assumes "add_bone_to_arma L imp arma bn nifname = Inr (arma1, r)"
  shows "has_bone (arma_bones arma1) bn"
proof (cases "has_bone (arma_bones arma) bn")
  case True
  with assms show ?thesis by (simp add: add_bone_to_arma_def)
next
  case False
  from add_bone_new [OF assms False] show ?thesis by (simp add: has_bone_def)
qed

text \<open>
  C7. After a call of \<open>add_bone_to_arma\<close> has returned, a second call with the same
  arguments changes nothing: it returns the armature it was given, with every bone's
  bind and pose transform as they were, and no new bone.
\<close>

theorem add_bone_to_arma_idempotent:
  assumes "add_bone_to_arma L imp arma bn nifname = Inr (arma1, r)"
  shows "add_bone_to_arma L imp arma1 bn nifname = Inr (arma1, None)"
  using add_bone_has_bone [OF assms] by (simp add: add_bone_to_arma_def)

theorem add_bone_to_arma_idempotent_witness:
  "add_bone_to_arma zlib (zimporter chain_nif) (zarma [zbone ''C'' None 3]) ''B'' ''B''
     = Inr (zarma [zbone ''C'' None 3, zbone ''B'' None 2], Some ''B'')
   \<and> add_bone_to_arma zlib (zimporter chain_nif)
        (zarma [zbone ''C'' None 3, zbone ''B'' None 2]) ''B'' ''B''
     = Inr (zarma [zbone ''C'' None 3, zbone ''B'' None 2], None)"
proof -
  have first: "add_bone_to_arma zlib (zimporter chain_nif) (zarma [zbone ''C'' None 3]) ''B'' ''B''
     = Inr (zarma [zbone ''C'' None 3, zbone ''B'' None 2], Some ''B'')"
    by code_simp
  from add_bone_to_arma_idempotent [OF first] first show ?thesis by simp
qed

subsection \<open>A skinned shape that uses no bones\<close>

text \<open>
  C9. For a skinned shape without a global-to-skin transform and with no used bones,
  \<open>calc_obj_transform\<close> reaches the pose step with \<open>pose_xf\<close> still \<open>None\<close> and raises
  \<^verbatim>\<open>TypeError\<close> at \<^verbatim>\<open>xf @ pose_xf\<close>; it does not return the identity placement.
\<close>

theorem calc_obj_transform_no_bones_raises:
  assumes "is_NiShape the_shape" and "has_skin_instance the_shape"
    and "\<not> has_global_to_skin the_shape" and "used_bones the_shape = []"
  shows "calc_obj_transform L imp the_shape scale_factor = Inl TypeError"
proof -
  have s1: "global_to_skin_step L the_shape = Inr (Identity4 L, False)"
    using assms(3) by (simp add: global_to_skin_step_def)
  have s2: "bind_offset_step L imp the_shape (Identity4 L, False) = Inr (Identity4 L, False)"
    using assms(4) by (simp add: bind_offset_step_def split: option.splits)
  have s3: "pose_offset_step L the_shape (Identity4 L, False) = Inl TypeError"
    using assms(4) by (simp add: pose_offset_step_def)
  show ?thesis
    using assms(1,2) by (simp add: calc_obj_transform_def skinned_transform_def s1 s2 s3)
qed


theorem calc_obj_transform_no_bones_raises_witness:
  "is_NiShape boneless_shape \<and> has_skin_instance boneless_shape
   \<and> \<not> has_global_to_skin boneless_shape \<and> used_bones boneless_shape = []
   \<and> calc_obj_transform zlib (zimporter chain_nif) boneless_shape 1 = Inl TypeError"
proof -
  have h: "is_NiShape boneless_shape" "has_skin_instance boneless_shape"
    "\<not> has_global_to_skin boneless_shape" "used_bones boneless_shape = []"
    by (simp_all add: boneless_shape_def zshape_def)
  from calc_obj_transform_no_bones_raises [OF h, of zlib "zimporter chain_nif" 1] h
  show ?thesis by simp
qed

subsection \<open>Setting the pose transforms\<close>

lemma find_bone_update_other:
  "(\<And>b. bone_name (f b) = bone_name b) \<Longrightarrow> m \<noteq> n \<Longrightarrow>
   find_bone (update_bone n f bs) m = find_bone bs m"
  by (induction bs) (auto simp: find_bone_def)

lemma find_bone_update_same:
  "(\<And>b. bone_name (f b) = bone_name b) \<Longrightarrow>
   find_bone (update_bone n f bs) n = map_option f (find_bone bs n)"
  by (induction bs) (auto simp: find_bone_def)

lemma has_bone_set_bone_poses:
  "has_bone (arma_bones (set_bone_poses L imp arma nf bl)) n = has_bone (arma_bones arma) n"
  by (simp add: has_bone_def set_bone_poses_names del: set_map)

lemma set_bone_poses_other:
  "blname \<notin> set (map snd bl) \<Longrightarrow>
   find_bone (arma_bones (set_bone_poses L imp arma nf bl)) blname
     = find_bone (arma_bones arma) blname"
proof (induction bl arbitrary: arma)
  case Nil
  show ?case by simp
next
  case (Cons p bl)
  obtain bn bl1 where p: "p = (bn, bl1)" by (cases p)
  from Cons.prems p have ne: "blname \<noteq> bl1" and rest: "blname \<notin> set (map snd bl)" by auto
  show ?case
    unfolding p by (simp add: Cons.IH [OF rest] find_bone_update_other ne split: option.splits)
qed

text \<open>
  C5, the claim as stated, fails: the pair naming the root node of the file, which is
  in the file and for which the rig has a bone, leaves that bone's pose transform as
  it was (here at 5 along z, where the node's corrected transform is at 0).
\<close>

theorem set_bone_poses_skips_root:
  "set_bone_poses zlib (zimporter chain_nif) (zarma [zbone ''Scene Root'' None 5]) chain_nif
     [(''Scene Root'', ''Scene Root'')] = zarma [zbone ''Scene Root'' None 5]
   \<and> map_of (nodes chain_nif) ''Scene Root'' = Some (znode ''Scene Root'' None 0)
   \<and> has_bone (arma_bones (zarma [zbone ''Scene Root'' None 5])) ''Scene Root''
   \<and> get_pose_blender_xf zlib (xform_to_global (znode ''Scene Root'' None 0)) ''SKYRIM'' 1
       = translate_z 0
   \<and> pose_matrix (zbone ''Scene Root'' None 5) = translate_z 5"
  by code_simp

text \<open>
  C5, amended. For every pair (source name, rig name) of a bone list whose rig names
  are distinct, such that the file has a node of the source name whose block is a
  \<open>NiNode\<close> and which is not the root of the file, and the rig has a bone of the rig
  name, \<open>set_bone_poses\<close> leaves that bone with the pose transform
  \<open>get_pose_blender_xf\<close> of the node's global transform: the scale applied to the
  translation, then the game's axis correction.
\<close>

theorem set_bone_poses_overwrites:
  assumes "distinct (map snd bonelist)" and "(bn, blname) \<in> set bonelist"
    and "map_of (nodes nf) bn = Some nif_bone"
    and "blockname nif_bone = ''NiNode''" and "node_name nif_bone \<noteq> rootName nf"
    and "has_bone (arma_bones arma) blname"
  shows "map_option pose_matrix
           (find_bone (arma_bones (set_bone_poses L imp arma nf bonelist)) blname)
         = Some (get_pose_blender_xf L (xform_to_global nif_bone)
                   (nif_game (nif imp)) (self_scale imp))"
  using assms(1,2,6)
proof (induction bonelist arbitrary: arma)
  case Nil
  then show ?case by simp
next
  case (Cons p bl)
  obtain bn1 bl1 where p: "p = (bn1, bl1)" by (cases p)
  from Cons.prems(1) p have d: "distinct (map snd bl)" and nin: "bl1 \<notin> set (map snd bl)"
    by auto
  let ?arma1 = "(case map_of (nodes nf) bn1 of
          None \<Rightarrow> arma
        | Some nif_bone \<Rightarrow>
            if has_bone (arma_bones arma) bl1
               \<and> blockname nif_bone = ''NiNode'' \<and> node_name nif_bone \<noteq> rootName nf
            then
              arma\<lparr>arma_bones :=
                update_bone bl1
                  (\<lambda>pose_bone. pose_bone\<lparr>pose_matrix :=
                     get_pose_blender_xf L (xform_to_global nif_bone)
                       (nif_game (nif imp)) (self_scale imp)\<rparr>)
                  (arma_bones arma)\<rparr>
            else arma)"
  have unfold: "set_bone_poses L imp arma nf (p # bl) = set_bone_poses L imp ?arma1 nf bl"
    unfolding p by simp
  have hb1: "has_bone (arma_bones ?arma1) blname"
    using Cons.prems(3)
    by (auto simp: has_bone_def names_update_bone split: option.splits simp del: set_map)
  show ?case
  proof (cases "(bn, blname) = p")
    case True
    then have eq: "bn1 = bn" "bl1 = blname" using p by auto
    from Cons.prems(3) obtain b where b: "find_bone (arma_bones arma) blname = Some b"
      using find_bone_Some by (auto simp: has_bone_def simp del: set_map)
    have v: "map_option pose_matrix (find_bone (arma_bones ?arma1) blname)
         = Some (get_pose_blender_xf L (xform_to_global nif_bone)
                   (nif_game (nif imp)) (self_scale imp))"
      using assms(3-5) Cons.prems(3) b by (simp add: eq find_bone_update_same)
    from nin eq have "blname \<notin> set (map snd bl)" by simp
    then have o: "find_bone (arma_bones (set_bone_poses L imp ?arma1 nf bl)) blname
        = find_bone (arma_bones ?arma1) blname"
      by (rule set_bone_poses_other)
    show ?thesis
      by (simp only: unfold o v)
  next
    case False
    with Cons.prems(2) have "(bn, blname) \<in> set bl" by simp
    from Cons.IH [OF d this hb1] show ?thesis by (simp only: unfold)
  qed
qed

theorem set_bone_poses_overwrites_witness:
  "distinct (map snd [(''A'', ''A''), (''B'', ''B'')])
   \<and> (''B'', ''B'') \<in> set [(''A'', ''A''), (''B'', ''B'')]
   \<and> map_of (nodes chain_nif) ''B'' = Some (znode ''B'' (Some ''A'') 2)
   \<and> blockname (znode ''B'' (Some ''A'') 2) = ''NiNode''
   \<and> node_name (znode ''B'' (Some ''A'') 2) \<noteq> rootName chain_nif
   \<and> has_bone (arma_bones (zarma [zbone ''A'' None 7, zbone ''B'' None 9])) ''B''
   \<and> map_option pose_matrix
        (find_bone (arma_bones (set_bone_poses zlib (zimporter chain_nif)
           (zarma [zbone ''A'' None 7, zbone ''B'' None 9]) chain_nif
           [(''A'', ''A''), (''B'', ''B'')])) ''B'')
      = Some (translate_z 2)"
proof -
  have h: "distinct (map snd [(''A'', ''A''), (''B'', ''B'')])"
    "(''B'', ''B'') \<in> set [(''A'', ''A''), (''B'', ''B'')]"
    "map_of (nodes chain_nif) ''B'' = Some (znode ''B'' (Some ''A'') 2)"
    "blockname (znode ''B'' (Some ''A'') 2) = ''NiNode''"
    "node_name (znode ''B'' (Some ''A'') 2) \<noteq> rootName chain_nif"
    "has_bone (arma_bones (zarma [zbone ''A'' None 7, zbone ''B'' None 9])) ''B''"
    by code_simp+
  have v: "get_pose_blender_xf zlib (xform_to_global (znode ''B'' (Some ''A'') 2))
      (nif_game (nif (zimporter chain_nif))) (self_scale (zimporter chain_nif)) = translate_z 2"
    by code_simp
  from set_bone_poses_overwrites [OF h, of zlib "zimporter chain_nif"] h v
  show ?thesis by simp
qed

subsection \<open>Placement of a shape with a global-to-skin transform\<close>

lemma bind_offset_loop_none:
  "filter (\<lambda>bn. map_of (nodes skel) bn \<noteq> None) bns = [] \<Longrightarrow>
   bind_offset_loop L skel the_shape xf bns st = Inr st"
proof (induction bns)
  case Nil
  show ?case by simp
next
  case (Cons bn bns)
  obtain off c where st: "st = (off, c)" by (cases st)
  from Cons.prems have "map_of (nodes skel) bn = None"
    and "filter (\<lambda>bn. map_of (nodes skel) bn \<noteq> None) bns = []"
    by (auto split: if_splits)
  with Cons.IH show ?case unfolding st by simp
qed

lemma bind_offset_step_none:
  "reference_bones imp the_shape = [] \<Longrightarrow> bind_offset_step L imp the_shape st = Inr st"
  by (cases st)
    (auto simp: reference_bones_def bind_offset_step_def bind_offset_loop_none
      split: option.splits if_splits)

text \<open>
  C2, the claim as stated, fails: with bones created from a reference skeleton that has
  the shape's bones, the bind offset to the reference skeleton is composed into the
  inverse of the global-to-skin transform. Here the inverse moves by 1, with the scale
  factor 1 applied it still moves by 1, and the method returns the move by 2.
\<close>

theorem calc_obj_transform_composes_offset:
  "is_NiShape offset_shape \<and> has_skin_instance offset_shape \<and> has_global_to_skin offset_shape
   \<and> inverted zlib (global_to_skin offset_shape) = Some (translate_z 1)
   \<and> apply_scale_xf zlib (translate_z 1) 1 = translate_z 1
   \<and> calc_obj_transform zlib spine_importer offset_shape 1 = Inr (translate_z 2)"
  by code_simp

text \<open>
  C2, amended. For every skinned shape with an invertible global-to-skin transform,
  when the second step finds no used bone in a reference skeleton (bones are not
  created from a reference skeleton, or it has none of the used bones),
  \<open>calc_obj_transform\<close> ends with the inverse of that transform and the offset marked
  consistent, and returns the inverse with the scale factor applied by
  \<open>apply_scale_xf\<close>; no bind offset and no pose offset is composed in.
\<close>

theorem calc_obj_transform_global_to_skin:
  assumes "is_NiShape the_shape" and "has_skin_instance the_shape"
    and "has_global_to_skin the_shape"
    and "inverted L (global_to_skin the_shape) = Some xf"
    and "reference_bones imp the_shape = []"
  shows "skinned_transform L imp the_shape = Inr (xf, True)
       \<and> calc_obj_transform L imp the_shape scale_factor = Inr (apply_scale_xf L xf scale_factor)"
proof -
  have s1: "global_to_skin_step L the_shape = Inr (xf, True)"
    using assms(3,4) by (simp add: global_to_skin_step_def)
  have s2: "bind_offset_step L imp the_shape (xf, True) = Inr (xf, True)"
    by (rule bind_offset_step_none [OF assms(5)])
  have s3: "pose_offset_step L the_shape (xf, True) = Inr (xf, True)"
    by (simp add: pose_offset_step_def)
  have sk: "skinned_transform L imp the_shape = Inr (xf, True)"
    by (simp add: skinned_transform_def s1 s2 s3)
  with assms(1,2) show ?thesis by (simp add: calc_obj_transform_def)
qed

theorem calc_obj_transform_global_to_skin_witness:
  "is_NiShape offset_shape \<and> has_skin_instance offset_shape \<and> has_global_to_skin offset_shape
   \<and> inverted zlib (global_to_skin offset_shape) = Some (translate_z 1)
   \<and> reference_bones (zimporter chain_nif) offset_shape = []
   \<and> skinned_transform zlib (zimporter chain_nif) offset_shape = Inr (translate_z 1, True)
   \<and> calc_obj_transform zlib (zimporter chain_nif) offset_shape (1 / 10)
       = Inr \<lparr>tz = 1 / 10, sc = 1, ww = 1\<rparr>"
proof -
  have h: "is_NiShape offset_shape" "has_skin_instance offset_shape"
    "has_global_to_skin offset_shape"
    "inverted zlib (global_to_skin offset_shape) = Some (translate_z 1)"
    "reference_bones (zimporter chain_nif) offset_shape = []"
    by code_simp+
  have v: "apply_scale_xf zlib (translate_z 1) (1 / 10) = \<lparr>tz = 1 / 10, sc = 1, ww = 1\<rparr>"
    by code_simp
  from calc_obj_transform_global_to_skin [OF h, of "1 / 10"] h v
  show ?thesis by simp
qed

subsection \<open>Matching a shape against candidate rigs\<close>

lemma has_bone_find_bone: "has_bone bs n = (find_bone bs n \<noteq> None)"
  by (induction bs) (auto simp: has_bone_def find_bone_def)

lemma get_bone_xform_bind:
  "find_bone (arma_bones arma) n = Some b \<Longrightarrow>
   get_bone_xform L arma n gm False False = Inr (matmul L (matrix_local b) (snd (game_rotations L gm)))"
  by (simp add: get_bone_xform_def get_bone_global_xf_def)

lemma check_bones_result:
  "\<exists>off' oc'. check_bones L imp obj shape arma bs (is_ok, off, oc)
       = Inr (is_ok \<and> \<not> list_ex (bone_mismatch L imp obj shape arma) bs, off', oc')
     \<and> (\<not> list_ex (bone_mismatch L imp obj shape arma) bs \<longrightarrow> off' = off)"
proof (induction bs arbitrary: is_ok off oc)
  case Nil
  show ?case by simp
next
  case (Cons b bs)
  show ?case
  proof (cases "find_bone (arma_bones arma) (blender_name imp b)")
    case None
    then have nm: "\<not> bone_mismatch L imp obj shape arma b" by (simp add: bone_mismatch_def)
    from None Cons.IH [of is_ok off oc] nm show ?thesis
      by (simp add: has_bone_find_bone Let_def)
  next
    case (Some ab)
    note xf = get_bone_xform_bind [OF Some, of L "shape_game shape"]
    show ?thesis
    proof (cases "bone_mismatch L imp obj shape arma b")
      case False
      with Some Cons.IH [of is_ok off oc] show ?thesis
        by (simp add: has_bone_find_bone Let_def xf bone_mismatch_def)
    next
      case True
      then have ne: "\<not> MatNearEqual L
              (matmul L (matrix_world obj)
                 (apply_scale_xf L (bind_position shape b) (self_scale imp)))
              (matmul L (matrix_local ab) (snd (game_rotations L (shape_game shape)))) None"
        using Some by (simp add: bone_mismatch_def)
      show ?thesis
      proof (cases off)
        case None
        from Cons.IH [of False "Some (matmul L (matmul L (matrix_world obj)
                 (apply_scale_xf L (bind_position shape b) (self_scale imp)))
              (matmul L (matrix_local ab) (snd (game_rotations L (shape_game shape)))))" oc]
        show ?thesis using Some True ne None
          by (auto simp: has_bone_find_bone Let_def xf)
      next
        case (Some off0)
        from Cons.IH [of False off oc] show ?thesis
          using \<open>find_bone (arma_bones arma) (blender_name imp b) = Some ab\<close> True ne Some
          by (auto simp: has_bone_find_bone Let_def xf)
      qed
    qed
  qed
qed

lemma try_arma_result:
  "try_arma L imp obj shape arma
     = Inr (Some (if list_ex (bone_mismatch L imp obj shape arma) (bone_names shape)
                  then (None, None) else (Some arma, None)))"
proof -
  from check_bones_result [of L imp obj shape arma "bone_names shape" True None True]
  obtain off' oc' where
    r: "check_bones L imp obj shape arma (bone_names shape) (True, None, True)
       = Inr (\<not> list_ex (bone_mismatch L imp obj shape arma) (bone_names shape), off', oc')"
    and o: "\<not> list_ex (bone_mismatch L imp obj shape arma) (bone_names shape) \<longrightarrow> off' = None"
    by auto
  show ?thesis using o by (simp add: try_arma_def r)
qed

text \<open>
  C1, the claim as stated, fails: for a shape whose one bone sits at 8 and a rig that
  has it at 10, the inner loop ends with \<open>is_ok\<close> false, an offset recorded and
  \<open>offset_consistent\<close> true, and the matcher returns \<open>(None, None)\<close>, not the rig
  with the offset. The branch that would return it is switched off in the source
  (\<^verbatim>\<open>if False and offset_consistent\<close>).
\<close>

theorem find_compatible_arma_consistent_offset_refused:
  "check_bones zlib match_importer body_obj spine_shape rig_at_10 (bone_names spine_shape)
     (True, None, True) = Inr (False, Some (translate_z 18), True)
   \<and> find_compatible_arma zlib match_importer body_obj [rig_at_10] = Inr (None, None)"
  by code_simp

text \<open>
  C1, amended. For every shape and first candidate rig, if some bone of the shape that
  the rig has mismatches the rig's bind position, \<open>find_compatible_arma\<close> returns
  \<open>(None, None)\<close>, whether or not the mismatching bones share one offset.
\<close>

theorem find_compatible_arma_mismatch:
  assumes "map_of (nodes_loaded imp) (obj_name obj) = Some shape"
    and "b \<in> set (bone_names shape)" and "bone_mismatch L imp obj shape arma b"
  shows "find_compatible_arma L imp obj (arma # armatures) = Inr (None, None)"
proof -
  from assms(2,3) have "list_ex (bone_mismatch L imp obj shape arma) (bone_names shape)"
    by (auto simp: list_ex_iff)
  with assms(1) show ?thesis by (simp add: find_compatible_arma_def try_arma_result)
qed

theorem find_compatible_arma_mismatch_witness:
  "map_of (nodes_loaded match_importer) (obj_name body_obj) = Some spine_shape
   \<and> ''Spine'' \<in> set (bone_names spine_shape)
   \<and> bone_mismatch zlib match_importer body_obj spine_shape rig_at_10 ''Spine''
   \<and> find_compatible_arma zlib match_importer body_obj [rig_at_10, rig_at_8] = Inr (None, None)"
proof -
  have h: "map_of (nodes_loaded match_importer) (obj_name body_obj) = Some spine_shape"
    "''Spine'' \<in> set (bone_names spine_shape)"
    "bone_mismatch zlib match_importer body_obj spine_shape rig_at_10 ''Spine''"
    by (simp add: match_importer_def body_obj_def zimporter_def) code_simp+
  from find_compatible_arma_mismatch [OF h, of "[rig_at_8]"] h show ?thesis by simp
qed

text \<open>
  C6. The result for a non-empty list of candidates is the result for its first rig
  alone: that rig, with no offset, when no bone of the shape mismatches it, and
  \<open>(None, None)\<close> otherwise. The candidates after the first are never looked at.
\<close>

theorem find_compatible_arma_first_only:
  "find_compatible_arma L imp obj (arma # armatures) = find_compatible_arma L imp obj [arma]
   \<and> find_compatible_arma L imp obj (arma # armatures)
     = (case map_of (nodes_loaded imp) (obj_name obj) of
          None \<Rightarrow> Inl KeyError
        | Some shape \<Rightarrow>
            Inr (if list_ex (bone_mismatch L imp obj shape arma) (bone_names shape)
                 then (None, None) else (Some arma, None)))"
  by (simp add: find_compatible_arma_def try_arma_result split: option.splits)

lemma first_only_values:
  "map_of (nodes_loaded match_importer) (obj_name body_obj) = Some spine_shape"
  "list_ex (bone_mismatch zlib match_importer body_obj spine_shape rig_at_10)
     (bone_names spine_shape)"
  "\<not> list_ex (bone_mismatch zlib match_importer body_obj spine_shape rig_at_8)
     (bone_names spine_shape)"
  by (simp add: match_importer_def body_obj_def zimporter_def) code_simp+

theorem find_compatible_arma_first_only_witness:
  "find_compatible_arma zlib match_importer body_obj [rig_at_10, rig_at_8] = Inr (None, None)
   \<and> find_compatible_arma zlib match_importer body_obj [rig_at_8, rig_at_10]
       = Inr (Some rig_at_8, None)"
  using find_compatible_arma_first_only
      [THEN conjunct2, of zlib match_importer body_obj rig_at_10 "[rig_at_8]"]
    find_compatible_arma_first_only
      [THEN conjunct2, of zlib match_importer body_obj rig_at_8 "[rig_at_10]"]
  by (simp add: first_only_values)

end
